theory Spec2Isabelle
  imports Main "HOL-Library.Word" "HOL-Library.AList"
begin

section \<open>Shared types\<close>

text \<open>
  A Go \<open>[]byte\<close> and a Go \<open>string\<close> are both sequences of bytes; an Isabelle
  \<open>char\<close> is one byte, so both are modelled as \<open>char list\<close>. A Go \<open>error\<close>
  is a value: \<open>fmt.Errorf\<close> builds one from its message, \<open>ssh.ErrNoAuth\<close> is the
  SSH library's own.
\<close>

type_synonym bytes = string

datatype error = Errorf string | ErrNoAuth

section \<open>signal.go\<close>

definition SIGABRT :: string where "SIGABRT = ''ABRT''"
definition SIGALRM :: string where "SIGALRM = ''ALRM''"
definition SIGFPE :: string where "SIGFPE = ''FPE''"
definition SIGHUP :: string where "SIGHUP = ''HUP''"
definition SIGILL :: string where "SIGILL = ''ILL''"
definition SIGINT :: string where "SIGINT = ''INT''"
definition SIGKILL :: string where "SIGKILL = ''KILL''"
definition SIGPIPE :: string where "SIGPIPE = ''PIPE''"
definition SIGQUIT :: string where "SIGQUIT = ''QUIT''"
definition SIGSEGV :: string where "SIGSEGV = ''SEGV''"
definition SIGTERM :: string where "SIGTERM = ''TERM''"
definition SIGUSR1 :: string where "SIGUSR1 = ''USR1''"
definition SIGUSR2 :: string where "SIGUSR2 = ''USR2''"

text \<open>The values of package \<open>syscall\<close> that \<open>toSignal\<close> returns.\<close>

datatype os_Signal =
    syscall_SIGABRT | syscall_SIGALRM | syscall_SIGFPE | syscall_SIGHUP
  | syscall_SIGILL | syscall_SIGINT | syscall_SIGKILL | syscall_SIGPIPE
  | syscall_SIGQUIT | syscall_SIGSEGV | syscall_SIGTERM | syscall_SIGUSR1
  | syscall_SIGUSR2

definition toSignal :: "string \<Rightarrow> error + os_Signal" where
  "toSignal sig =
     (if sig = SIGABRT then Inr syscall_SIGABRT
      else if sig = SIGALRM then Inr syscall_SIGALRM
      else if sig = SIGFPE then Inr syscall_SIGFPE
      else if sig = SIGHUP then Inr syscall_SIGHUP
      else if sig = SIGILL then Inr syscall_SIGILL
      else if sig = SIGINT then Inr syscall_SIGINT
      else if sig = SIGKILL then Inr syscall_SIGKILL
      else if sig = SIGPIPE then Inr syscall_SIGPIPE
      else if sig = SIGQUIT then Inr syscall_SIGQUIT
      else if sig = SIGSEGV then Inr syscall_SIGSEGV
      else if sig = SIGTERM then Inr syscall_SIGTERM
      else if sig = SIGUSR1 then Inr syscall_SIGUSR1
      else if sig = SIGUSR2 then Inr syscall_SIGUSR2
      else Inl (Errorf ''unknown signal''))"

text \<open>The thirteen shortnames of RFC 4254, section 6.10.\<close>

definition rfc4254_names :: "string list" where
  "rfc4254_names =
     [''ABRT'', ''ALRM'', ''FPE'', ''HUP'', ''ILL'', ''INT'', ''KILL'', ''PIPE'',
      ''QUIT'', ''SEGV'', ''TERM'', ''USR1'', ''USR2'']"

section \<open>The session channel handler\<close>

subsection \<open>Data\<close>

text \<open>
  Modelled from the spec: the declarations of \<open>Window\<close> and \<open>Pty\<close> are not among
  the source files. The spec gives a window as \<open>(cols, rows, widthPx, heightPx)\<close>,
  four \<open>uint32\<close> of the wire format, and a PTY descriptor as a term string, the
  initial window and the encoded terminal modes.
\<close>

record Window =
  Cols :: "32 word"
  Rows :: "32 word"
  WidthPx :: "32 word"
  HeightPx :: "32 word"

record Pty =
  Term :: string
  PtyWindow :: Window
  Modes :: bytes

text \<open>An \<open>ssh.Request\<close> as the request loop reads it.\<close>

record Request =
  Type :: string
  WantReply :: bool
  Payload :: bytes

text \<open>
  A Go channel of windows: what has been sent and not yet received, and whether
  \<open>close\<close> has been called on it. The nil channel is \<open>None\<close> at the place of use.
\<close>

record window_chan =
  queue :: "Window list"
  closed :: bool

text \<open>
  A signal sink is a \<open>chan<- os.Signal\<close> of the user's handler, known to the
  session by its identity only; \<open>None\<close> is the nil channel.
\<close>

type_synonym sink = nat

text \<open>
  The fields of \<open>session\<close> that change. \<open>Channel\<close>, \<open>conn\<close>, \<open>handler\<close> and
  \<open>signalChCh\<close> are references fixed at creation; what the code does through them
  appears as an effect.
\<close>

record session =
  handled :: "64 word"
  exited :: "64 word"
  agentRequested :: "64 word"
  env :: "string list"
  cmd :: "string list"
  pty :: "Pty option"
  winch :: "window_chan option"

text \<open>
  Everything a session does to the outside, in program order: a reply to a request, a
  request sent on the channel, closing the window channel, the channel or the parent
  connection, the call of the user's handler, starting the task that runs \<open>Exit\<close>
  with the handler's result, a send on a signal sink or on the window channel, starting
  the task that drains the signal buffer, a run-time panic, and a wait that never ends.
\<close>

datatype effect =
    Reply bool
  | SendRequest string bool bytes
  | CloseWinch
  | ChannelClose
  | ConnClose
  | CallHandler
  | GoExit "64 word"
  | SignalSend sink os_Signal
  | GoDrain "sink option" "os_Signal list"
  | WinchSend Window
  | Panic string
  | WaitsForever

text \<open>
  Functions the session calls that live outside the source files at hand: the SSH
  library's \<open>Unmarshal\<close> into a struct of one or of two strings (its error is
  discarded by every caller here, so only the decoded fields matter), \<open>shlex.Split\<close>
  (error discarded as well), and the PTY request codec \<open>parsePtyRequest\<close> and
  \<open>parseWinchRequest\<close>. They are parameters of the model: every theorem holds
  for any choice of them.
\<close>

record extern =
  Unmarshal1 :: "bytes \<Rightarrow> string"
  Unmarshal2 :: "bytes \<Rightarrow> string \<times> string"
  shlex_Split :: "string \<Rightarrow> string list"
  parsePtyRequest :: "bytes \<Rightarrow> Pty \<times> bool"
  parseWinchRequest :: "bytes \<Rightarrow> Window \<times> bool"

text \<open>
  \<open>ssh.Marshal\<close> of \<open>struct{ Status uint32 }\<close>: the four bytes of the value, most
  significant first.
\<close>

definition Marshal_uint32 :: "32 word \<Rightarrow> bytes" where
  "Marshal_uint32 w =
     [char_of (unat (drop_bit 24 w)), char_of (unat (drop_bit 16 w)),
      char_of (unat (drop_bit 8 w)), char_of (unat w)]"

text \<open>Reading four bytes back as a big-endian number.\<close>

definition be_uint32 :: "bytes \<Rightarrow> nat" where
  "be_uint32 bs = foldl (\<lambda>acc c. acc * 256 + of_char c) 0 bs"

definition agentRequestType :: string where
  "agentRequestType = ''auth-agent-req@openssh.com''"

subsection \<open>Methods of a session\<close>

definition hasBeenHandled :: "session \<Rightarrow> bool" where
  "hasBeenHandled s = (handled s = 1)"

definition handlePtyReq :: "extern \<Rightarrow> Request \<Rightarrow> session \<Rightarrow> session \<times> effect list" where
  "handlePtyReq X req s =
     (if hasBeenHandled s then (s, [Reply False])
      else if pty s \<noteq> None then (s, [Reply False])
      else (case parsePtyRequest X (Payload req) of (ptyReq, ok) \<Rightarrow>
        if \<not> ok then (s, [Reply False])
        else (s\<lparr>pty := Some ptyReq,
                winch := Some \<lparr>queue = [PtyWindow ptyReq], closed = False\<rparr>\<rparr>,
              [WinchSend (PtyWindow ptyReq), Reply ok])))"

text \<open>
  \<open>Exit\<close>. The result of \<open>s.Channel.SendRequest\<close> belongs to the SSH library and is
  the parameter \<open>send_err\<close> (\<open>None\<close> for a nil error). \<open>code\<close> is a Go \<open>int\<close>
  (64 bits) and \<open>uint32(code)\<close> keeps its low 32 bits. \<open>close\<close> of a nil channel
  panics in Go, and \<open>s.winch\<close> is nil until a \<open>pty-req\<close> has been accepted.
\<close>

datatype exit_result = ExitNil | ExitError error | ExitPanic

definition Exit :: "error option \<Rightarrow> 64 word \<Rightarrow> session \<Rightarrow> exit_result \<times> session \<times> effect list" where
  "Exit send_err code s =
     (if exited s \<noteq> 0 then (ExitError (Errorf ''exit called more than once''), s, [])
      else
        let s1 = s\<lparr>exited := 1\<rparr>;
            status = (ucast code :: 32 word);
            sent = [SendRequest ''exit-status'' False (Marshal_uint32 status)]
        in (case send_err of
              Some e \<Rightarrow> (ExitError e, s1, sent)
            | None \<Rightarrow>
               (case winch s1 of
                  None \<Rightarrow> (ExitPanic, s1, sent @ [Panic ''close of nil channel''])
                | Some w \<Rightarrow>
                    if closed w then (ExitPanic, s1, sent @ [Panic ''close of closed channel''])
                    else (ExitNil, s1\<lparr>winch := Some (w\<lparr>closed := True\<rparr>)\<rparr>,
                          sent @ [CloseWinch, ChannelClose, ConnClose]))))"

text \<open>
  The user's handler, \<open>SessionHandler\<close>, is code of the embedding program. What
  matters of one run of it is which methods of the session it calls that change the
  session or need the request loop (\<open>Signals\<close>, \<open>Exit\<close> with the result of its
  send, \<open>Close\<close>), in which order, and the code it returns, if it returns. Reads of
  the session and writes to the channel are not listed.
\<close>

datatype session_call =
    CallSignals "sink option"
  | CallExit "error option" "64 word"
  | CallClose

record handler_run =
  calls :: "session_call list"
  returns :: "64 word option"

record sessionChannelHandler =
  handler :: "session \<Rightarrow> handler_run"
  allowPty :: bool
  allowAgentFwd :: bool

text \<open>
  The calls of a handler that runs on the request loop's own task. \<open>Signals\<close> sends
  on the unbuffered \<open>signalChCh\<close>, which nothing but the \<open>select\<close> of the request
  loop receives from: called from that task, the send waits for ever. The result tells
  whether the handler got through its calls.
\<close>

fun run_calls :: "session_call list \<Rightarrow> session \<Rightarrow> session \<times> effect list \<times> bool" where
  "run_calls [] s = (s, [], True)"
| "run_calls (CallSignals c # cs) s = (s, [WaitsForever], False)"
| "run_calls (CallExit send_err code # cs) s =
     (case Exit send_err code s of (r, s', es) \<Rightarrow>
        if r = ExitPanic then (s', es, False)
        else (case run_calls cs s' of (s'', es', through) \<Rightarrow> (s'', es @ es', through)))"
| "run_calls (CallClose # cs) s =
     (case run_calls cs s of (s', es, through) \<Rightarrow> (s', [ChannelClose, ConnClose] @ es, through))"

text \<open>
  \<open>handle\<close>. \<open>atomic.CompareAndSwapUint64(&s.handled, 0, 1)\<close> succeeds exactly when
  the flag is 0. In \<open>go s.Exit(s.handler(ctx, s))\<close> the argument of \<open>Exit\<close> is
  evaluated by the caller, as Go does for every \<open>go\<close> statement: the handler runs
  inside \<open>handle\<close>, on the task of the request loop, and the new task is only the
  call of \<open>Exit\<close> with the code that the handler returned. A handler that does not
  return keeps \<open>handle\<close> from returning.
\<close>

definition handle ::
  "(session \<Rightarrow> handler_run) \<Rightarrow> extern \<Rightarrow> Request \<Rightarrow> session \<Rightarrow> session \<times> effect list" where
  "handle hdl X req s =
     (if handled s \<noteq> 0 then (s, [Reply False])
      else
        let s1 = s\<lparr>handled := 1, cmd := shlex_Split X (Unmarshal1 X (Payload req))\<rparr>
        in (case run_calls (calls (hdl s1)) s1 of (s2, es, through) \<Rightarrow>
              if \<not> through then (s2, [Reply True, CallHandler] @ es)
              else (case returns (hdl s1) of
                      None \<Rightarrow> (s2, [Reply True, CallHandler] @ es @ [WaitsForever])
                    | Some code \<Rightarrow> (s2, [Reply True, CallHandler] @ es @ [GoExit code]))))"

text \<open>
  \<open>bytes.Replace(s, old, new, -1)\<close> of the Go standard library: every
  non-overlapping occurrence of \<open>old\<close> in \<open>s\<close>, found from left to right, is
  replaced by \<open>new\<close>. Both calls in \<open>Write\<close> pass a non-empty \<open>old\<close>; for an
  empty \<open>old\<close> Go splices \<open>new\<close> in between UTF-8 sequences, which is not
  modelled (the first branch only makes the function total).
\<close>

function bytes_Replace :: "bytes \<Rightarrow> bytes \<Rightarrow> bytes \<Rightarrow> bytes" where
  "bytes_Replace s old new =
     (if old = [] then s
      else if s = [] then []
      else if take (length old) s = old
        then new @ bytes_Replace (drop (length old) s) old new
      else hd s # bytes_Replace (tl s) old new)"
  by pat_completeness auto
termination
  by (relation "measure (\<lambda>(s, old, new). length s)") auto

declare bytes_Replace.simps [simp del]

definition LF :: char where "LF = CHR 0x0A"
definition CR :: char where "CR = CHR 0x0D"

text \<open>The two rewriting passes of \<open>Write\<close> on a session with a PTY.\<close>

definition normalize :: "bytes \<Rightarrow> bytes" where
  "normalize p = bytes_Replace (bytes_Replace p [LF] [CR, LF]) [CR, CR, LF] [CR, LF]"

text \<open>
  \<open>Write\<close>. \<open>s.Channel.Write\<close> belongs to the SSH library: \<open>chan_write\<close> gives
  the count and the error it returns for the bytes handed to it. Counts are Go \<open>int\<close>s,
  far from overflow here, and are modelled as \<open>int\<close>.
\<close>

definition Write :: "(bytes \<Rightarrow> int \<times> error option) \<Rightarrow> bytes \<Rightarrow> session \<Rightarrow> int \<times> error option" where
  "Write chan_write p s =
     (if pty s \<noteq> None then
        let m = int (length p);
            p' = bytes_Replace p [LF] [CR, LF];
            p'' = bytes_Replace p' [CR, CR, LF] [CR, LF]
        in (case chan_write p'' of (n, err) \<Rightarrow> (if n > m then m else n, err))
      else chan_write p)"

subsection \<open>The request loop\<close>

text \<open>
  The local variables of \<open>handleRequests\<close> together with the session it creates.
\<close>

record loop_state =
  signalCh :: "sink option"
  signalBuffer :: "os_Signal list"
  sess :: session

definition new_session :: session where
  "new_session = \<lparr>handled = 0, exited = 0, agentRequested = 0, env = [], cmd = [],
                   pty = None, winch = None\<rparr>"

definition init_loop :: loop_state where
  "init_loop = \<lparr>signalCh = None, signalBuffer = [], sess = new_session\<rparr>"

text \<open>
  What one pass through the \<open>select\<close> can find: the context cancelled, a sink (or
  nil) arriving on \<open>signalChCh\<close>, a value received from \<open>reqs\<close> (\<open>None\<close> is the
  nil pointer, which is all a closed Go channel ever yields), or nothing ready, the
  \<open>default\<close> case.
\<close>

datatype select_case =
    CtxDone
  | RecvSignalCh "sink option"
  | RecvReq "Request option"
  | Default

text \<open>
  The body of the task started on registration: it sends the buffered signals one after
  the other. A send on a nil channel blocks forever, so nothing is ever delivered there.
\<close>

definition drain_task :: "sink option \<Rightarrow> os_Signal list \<Rightarrow> effect list" where
  "drain_task ch buf = (case ch of None \<Rightarrow> [] | Some c \<Rightarrow> map (SignalSend c) buf)"

text \<open>
  A send on the window channel: on a closed channel it panics; otherwise the value is
  queued for the user's handler (the channel has capacity 1 and the send waits for room;
  the waiting is not modelled). The channel is created together with the PTY, so the nil
  case, where a send would wait forever, does not arise once \<open>pty\<close> is set.
\<close>

definition winch_send :: "Window \<Rightarrow> session \<Rightarrow> session \<times> effect list" where
  "winch_send win s =
     (case winch s of
        None \<Rightarrow> (s, [])
      | Some w \<Rightarrow>
          if closed w then (s, [Panic ''send on closed channel''])
          else (s\<lparr>winch := Some (w\<lparr>queue := queue w @ [win]\<rparr>)\<rparr>, [WinchSend win]))"

text \<open>The \<open>switch req.Type\<close> of the loop, for a non-nil request.\<close>

definition serve_request ::
  "sessionChannelHandler \<Rightarrow> extern \<Rightarrow> Request \<Rightarrow> loop_state \<Rightarrow> loop_state \<times> effect list" where
  "serve_request h X req st =
     (if Type req = ''shell'' \<or> Type req = ''exec'' then
        (case handle (handler h) X req (sess st) of (s', es) \<Rightarrow> (st\<lparr>sess := s'\<rparr>, es))
      else if Type req = ''env'' then
        (if hasBeenHandled (sess st) then (st, [Reply False])
         else (case Unmarshal2 X (Payload req) of (k, v) \<Rightarrow>
           (st\<lparr>sess := (sess st)\<lparr>env := env (sess st) @ [k @ ''='' @ v]\<rparr>\<rparr>, [Reply True])))
      else if Type req = ''signal'' then
        (case toSignal (Unmarshal1 X (Payload req)) of
           Inl err \<Rightarrow> (st, [])
         | Inr sig \<Rightarrow>
            (case signalCh st of
               Some c \<Rightarrow> (st, [SignalSend c sig])
             | None \<Rightarrow>
                 if length (signalBuffer st) < 128
                 then (st\<lparr>signalBuffer := signalBuffer st @ [sig]\<rparr>, [])
                 else (st, [])))
      else if Type req = ''pty-req'' then
        (if \<not> allowPty h then (st, [Reply False])
         else (case handlePtyReq X req (sess st) of (s', es) \<Rightarrow> (st\<lparr>sess := s'\<rparr>, es)))
      else if Type req = ''window-change'' then
        (case pty (sess st) of
           None \<Rightarrow> (st, [Reply False])
         | Some p \<Rightarrow>
            (case parseWinchRequest X (Payload req) of (win, ok) \<Rightarrow>
               if ok then
                 (case winch_send win ((sess st)\<lparr>pty := Some (p\<lparr>PtyWindow := win\<rparr>)\<rparr>) of
                    (s', es) \<Rightarrow> (st\<lparr>sess := s'\<rparr>, es @ [Reply ok]))
               else (st, [Reply ok])))
      else if Type req = agentRequestType then
        (if allowAgentFwd h
         then (st\<lparr>sess := (sess st)\<lparr>agentRequested := 1\<rparr>\<rparr>, [Reply True])
         else (st, [Reply False]))
      else (st, [Reply False]))"

text \<open>One iteration of the \<open>for\<close> loop that does not return.\<close>

definition loop_step ::
  "sessionChannelHandler \<Rightarrow> extern \<Rightarrow> select_case \<Rightarrow> loop_state \<Rightarrow> loop_state \<times> effect list" where
  "loop_step h X c st =
     (case c of
        CtxDone \<Rightarrow> (st, [])
      | RecvSignalCh sigCh \<Rightarrow>
          (st\<lparr>signalCh := sigCh\<rparr>,
           if length (signalBuffer st) > 0 then [GoDrain sigCh (signalBuffer st)] else [])
      | RecvReq None \<Rightarrow> (st, [])
      | RecvReq (Some req) \<Rightarrow> serve_request h X req st
      | Default \<Rightarrow> (st, []))"

text \<open>
  The loop, run on what the successive \<open>select\<close>s find. It returns only in the
  \<open>ctx.Done()\<close> case; every other case ends in \<open>continue\<close> or falls out of the
  \<open>select\<close> into the next iteration. \<open>Running\<close> means that the loop has served the
  whole list and has not returned: it is at the top of the \<open>for\<close> again. A panic
  ends the task (and the process). \<open>Blocked\<close>: the task is inside a call that never
  returns, and serves nothing more.
\<close>

datatype loop_outcome =
    Returned loop_state "effect list"
  | Running loop_state "effect list"
  | Panicked loop_state "effect list"
  | Blocked loop_state "effect list"

definition is_Panic :: "effect \<Rightarrow> bool" where
  "is_Panic e = (case e of Panic m \<Rightarrow> True | _ \<Rightarrow> False)"

fun handleRequests_from ::
  "sessionChannelHandler \<Rightarrow> extern \<Rightarrow> select_case list \<Rightarrow> loop_state \<Rightarrow> effect list \<Rightarrow> loop_outcome" where
  "handleRequests_from h X [] st out = Running st out"
| "handleRequests_from h X (c # cs) st out =
     (if c = CtxDone then Returned st out
      else (case loop_step h X c st of (st', es) \<Rightarrow>
              if list_ex is_Panic es then Panicked st' (out @ es)
              else if WaitsForever \<in> set es then Blocked st' (out @ es)
              else handleRequests_from h X cs st' (out @ es)))"

definition handleRequests :: "sessionChannelHandler \<Rightarrow> extern \<Rightarrow> select_case list \<Rightarrow> loop_outcome" where
  "handleRequests h X cs = handleRequests_from h X cs init_loop []"

section \<open>The server\<close>

subsection \<open>Permissions and the public-key callback wrapper\<close>

text \<open>
  \<open>ssh.Permissions\<close>: two Go maps, each of which may be nil (\<open>None\<close>).
\<close>

record Permissions =
  CriticalOptions :: "(string \<rightharpoonup> string) option"
  Extensions :: "(string \<rightharpoonup> string) option"

text \<open>
  An \<open>ssh.PublicKey\<close> is an interface value; the code at hand observes it through
  \<open>Type()\<close> and \<open>Marshal()\<close> only, so a key is modelled by what these two return.
\<close>

datatype PublicKey = PublicKey (key_Type: string) (key_Marshal: bytes)

text \<open>An \<open>ssh.ConnMetadata\<close> is passed through untouched; the user name stands for it.\<close>

type_synonym ConnMetadata = string

type_synonym PublicKeyCallback = "ConnMetadata \<Rightarrow> PublicKey \<Rightarrow> Permissions option \<times> error option"

text \<open>
  Functions of the SSH library that the server calls: the legacy MD5 fingerprint of a
  key, the parser of a marshaled key, and \<open>ServerConfig.AddHostKey\<close> as a function on
  the list of host keys. They are parameters of the model.
\<close>

record ssh_lib =
  FingerprintLegacyMD5 :: "PublicKey \<Rightarrow> string"
  ParsePublicKey :: "bytes \<Rightarrow> error + PublicKey"
  AddHostKey :: "nat \<Rightarrow> nat list \<Rightarrow> nat list"

definition permKeyType :: string where "permKeyType = ''pub-key-type''"
definition permKeyData :: string where "permKeyData = ''pub-key-data''"
definition permKeyFingerprint :: string where "permKeyFingerprint = ''pub-key-fingerprint''"

text \<open>
  \<open>perm.Extensions[k] = v\<close>. An assignment into a nil map panics in Go; the wrapper
  makes the map before it assigns, so the nil case is left as it is here.
\<close>

definition set_extension :: "string \<Rightarrow> string \<Rightarrow> Permissions \<Rightarrow> Permissions" where
  "set_extension k v perm = perm\<lparr>Extensions := map_option (\<lambda>m. m(k \<mapsto> v)) (Extensions perm)\<rparr>"

definition pubKeyCallbackWrapper :: "ssh_lib \<Rightarrow> PublicKeyCallback option \<Rightarrow> PublicKeyCallback" where
  "pubKeyCallbackWrapper L cb meta key =
     (case cb of
        None \<Rightarrow> (None, Some ErrNoAuth)
      | Some f \<Rightarrow>
         (case f meta key of (perm, err) \<Rightarrow>
            if err \<noteq> None then (None, err)
            else
              let perm1 = (case perm of
                             None \<Rightarrow> \<lparr>CriticalOptions = None, Extensions = Some Map.empty\<rparr>
                           | Some p \<Rightarrow>
                               if Extensions p = None then p\<lparr>Extensions := Some Map.empty\<rparr>
                               else p);
                  perm2 = set_extension permKeyType (key_Type key) perm1;
                  perm3 = set_extension permKeyData (key_Marshal key) perm2;
                  perm4 = set_extension permKeyFingerprint (FingerprintLegacyMD5 L key) perm3
              in (Some perm4, None)))"

text \<open>
  \<open>session.PublicKey\<close>, as a function of \<open>s.conn.Permissions\<close>; \<open>None\<close> is the nil
  key it returns.
\<close>

definition session_PublicKey :: "ssh_lib \<Rightarrow> Permissions option \<Rightarrow> PublicKey option" where
  "session_PublicKey L perms =
     (case perms of
        None \<Rightarrow> None
      | Some p \<Rightarrow>
         (case Extensions p of
            None \<Rightarrow> None
          | Some m \<Rightarrow>
             (case m permKeyData of
                Some keyData \<Rightarrow>
                  (case ParsePublicKey L keyData of Inr key \<Rightarrow> Some key | Inl err \<Rightarrow> None)
              | None \<Rightarrow> None)))"

subsection \<open>Configuration and construction\<close>

text \<open>
  \<open>ssh.ServerConfig\<close>: the public-key callback, the host keys, and the other
  authentication settings, which the server never reads or writes and which are kept by
  identity. Signers, handlers and callbacks other than the public-key callback are
  opaque to the server and are named by numbers.
\<close>

record ServerConfig =
  PublicKeyCallback :: "PublicKeyCallback option"
  hostKeys :: "nat list"
  PasswordCallback :: "nat option"
  AuthLogCallback :: "nat option"
  NoClientAuth :: bool

text \<open>
  \<open>Config\<close>. Durations are nanoseconds. \<open>SignalChan\<close> is read by \<open>listen\<close> and
  set by \<open>WithSignalCh\<close>.
  Modelled from the spec: the declaration of the field \<open>SignalChan\<close> is missing from
  the source files; the spec lists it as an optional OS-signal channel.
\<close>

record Config =
  Addr :: string
  MaxConnections :: int
  MaxClientConnections :: int
  MaxDeadline :: int
  MaxConnectionDuration :: int
  RequestHandlers :: "string \<rightharpoonup> nat"
  ChannelHandlers :: "string \<rightharpoonup> nat"
  ConnectionCallback :: "nat option"
  EventHandler :: "nat option"
  PrivateKey :: "nat option"
  ServerConfig :: "ServerConfig option"
  SignalChan :: "nat option"

definition Millisecond :: int where "Millisecond = 1000000"
definition Second :: int where "Second = 1000000000"

record TCPAddr =
  IP :: string
  Port :: nat

record TCPConn =
  LocalAddr :: TCPAddr
  RemoteAddr :: TCPAddr

text \<open>
  A \<open>Server\<close>. \<open>config\<close> is the \<open>Config\<close> the caller handed to \<open>New\<close>: the Go
  field is a pointer to the caller's own object, so a write through it is a write to the
  caller's configuration. \<open>sshConfig\<close> points to the same object as
  \<open>ServerConfig\<close> of \<open>config\<close> and has no field of its own here.
\<close>

record Server =
  config :: Config
  cancelled :: bool
  ServerAddr :: "TCPAddr option"
  listener :: "TCPAddr option"

text \<open>\<open>New\<close> returns the configuration as it leaves it, and the server or the error.\<close>

definition New :: "ssh_lib \<Rightarrow> Config \<Rightarrow> Config \<times> (error + Server)" where
  "New L conf =
     (let conf1 = (if MaxDeadline conf = 0 then conf\<lparr>MaxDeadline := Second\<rparr> else conf)
      in case ServerConfig conf1 of
           None \<Rightarrow> (conf1, Inl (Errorf ''ssh.ServerConfig must be provided''))
         | Some sc \<Rightarrow>
            let sc1 = (if PublicKeyCallback sc \<noteq> None
                       then sc\<lparr>PublicKeyCallback :=
                                  Some (pubKeyCallbackWrapper L (PublicKeyCallback sc))\<rparr>
                       else sc);
                sc2 = (case PrivateKey conf1 of
                         Some k \<Rightarrow> sc1\<lparr>hostKeys := AddHostKey L k (hostKeys sc1)\<rparr>
                       | None \<Rightarrow> sc1);
                conf2 = conf1\<lparr>ServerConfig := Some sc2\<rparr>
            in (conf2, Inr \<lparr>config = conf2, cancelled = False, ServerAddr = None,
                            listener = None\<rparr>))"

subsection \<open>Events and effects of the acceptor\<close>

datatype Event =
    ServerStartedEvent
  | ServerStoppedEvent
  | ConnectionOpenedEvent TCPAddr TCPAddr
  | ConnectionClosedEvent TCPAddr TCPAddr
  | MaxConnectionsEvent
  | MaxClientConnectionsEvent TCPAddr TCPAddr
  | ConnectionFailedEvent error
  | ListenerOpenedEvent TCPAddr
  | ListenerClosedEvent

text \<open>
  What the acceptor does to the outside, in program order. \<open>HandleEvent e\<close> is the call
  \<open>s.handleEvent(e)\<close>, which passes \<open>e\<close> to the configured \<open>EventHandler\<close> unless
  that is nil (see \<open>handleEvent\<close> below). A deadline is recorded by the duration added
  to the current time.
\<close>

datatype acc_effect =
    HandleEvent Event
  | ListenerSetDeadline int
  | ListenerClose
  | TCPClose TCPConn
  | TCPSetDeadline TCPConn int
  | WaitGroupAdd
  | GoHandleTCPConn TCPConn
  | CtxCancel
  | SignalStop
  | WaitGroupPanic

text \<open>The events that reach the observer for a call of \<open>s.handleEvent\<close>.\<close>

definition handleEvent :: "Config \<Rightarrow> Event \<Rightarrow> Event list" where
  "handleEvent cfg evt = (if EventHandler cfg \<noteq> None then [evt] else [])"

subsection \<open>The accept loop\<close>

text \<open>
  The local variables of \<open>listen\<close>: the wait group's counter, the two connection
  counters (Go \<open>int\<close>s, far from overflow, modelled as \<open>int\<close>), and the deadline.
  The Go map from IP to count is an association list with distinct keys. \<open>tasks\<close> is
  not a variable of the code: it lists the connections whose \<open>handleTCPConn\<close> task has
  been started with \<open>go\<close> and whose notification has not yet been received from
  \<open>closeCh\<close>. Each such task sends its connection to \<open>closeCh\<close> once, when it ends
  (\<open>defer s.closeConn(tcpConn)\<close>), and nothing else sends on that channel.
\<close>

record listen_state =
  wg :: int
  openConnections :: int
  clientConnections :: "(string \<times> int) list"
  deadline :: int
  ctx_cancelled :: bool
  tasks :: "TCPConn list"

definition initialDeadline :: int where
  "initialDeadline = 5 * Millisecond"

definition init_listen :: listen_state where
  "init_listen = \<lparr>wg = 0, openConnections = 0, clientConnections = [],
                    deadline = initialDeadline, ctx_cancelled = False, tasks = []\<rparr>"

text \<open>\<open>val, ok := m[k]\<close>: the zero value and \<open>false\<close> for an absent key.\<close>

definition map_get :: "(string \<times> int) list \<Rightarrow> string \<Rightarrow> int \<times> bool" where
  "map_get m k = (case map_of m k of None \<Rightarrow> (0, False) | Some v \<Rightarrow> (v, True))"

text \<open>\<open>m[k]++\<close> and \<open>m[k]--\<close>: an absent key is created from the zero value.\<close>

definition map_bump :: "(string \<times> int) list \<Rightarrow> string \<Rightarrow> int \<Rightarrow> (string \<times> int) list" where
  "map_bump m k d = AList.update k (fst (map_get m k) + d) m"

text \<open>
  What one pass through the \<open>select\<close> of \<open>listen\<close> finds: the context done, a
  signal, a closed connection on \<open>closeCh\<close>, or the \<open>default\<close> case with the three
  ways \<open>Accept\<close> can end.
\<close>

datatype listen_case =
    SelCtxDone
  | SelSignal
  | SelClose TCPConn
  | AcceptTimeout
  | AcceptError error
  | AcceptOk TCPConn

text \<open>
  Which cases the environment can offer: a signal only on a channel that exists, a close
  notification only for a task that is running.
\<close>

definition enabled :: "Config \<Rightarrow> listen_case \<Rightarrow> listen_state \<Rightarrow> bool" where
  "enabled cfg c st =
     (case c of
        SelSignal \<Rightarrow> SignalChan cfg \<noteq> None
      | SelClose conn \<Rightarrow> conn \<in> set (tasks st)
      | _ \<Rightarrow> True)"

text \<open>The top of each iteration: cap the deadline and set it on the listener.\<close>

definition iteration_head :: "Config \<Rightarrow> listen_state \<Rightarrow> listen_state \<times> acc_effect list" where
  "iteration_head cfg st =
     (let d = (if deadline st > MaxDeadline cfg then MaxDeadline cfg else deadline st)
      in (st\<lparr>deadline := d\<rparr>, [ListenerSetDeadline d]))"

text \<open>The case \<open>tcpConn := <-s.closeCh\<close>. \<open>wg.Done()\<close> panics on a negative counter.\<close>

definition close_notification :: "Config \<Rightarrow> TCPConn \<Rightarrow> listen_state \<Rightarrow> listen_state \<times> acc_effect list" where
  "close_notification cfg tcpConn st =
     (if wg st - 1 < 0 then (st, [WaitGroupPanic])
      else
        let ip = IP (RemoteAddr tcpConn);
            st1 = st\<lparr>wg := wg st - 1, deadline := initialDeadline,
                     openConnections := openConnections st - 1\<rparr>;
            st2 = (if snd (map_get (clientConnections st1) ip)
                   then st1\<lparr>clientConnections := map_bump (clientConnections st1) ip (- 1)\<rparr>
                   else st1)
        in (st2\<lparr>tasks := remove1 tcpConn (tasks st2)\<rparr>,
            [HandleEvent (ConnectionClosedEvent (LocalAddr tcpConn) (RemoteAddr tcpConn))]))"

text \<open>
  The \<open>default\<close> case after a successful \<open>Accept\<close>: the deadline is reset, then the
  two limits are checked in the order of the source, then the connection is admitted.
\<close>

definition admit :: "Config \<Rightarrow> TCPConn \<Rightarrow> listen_state \<Rightarrow> listen_state \<times> acc_effect list" where
  "admit cfg tcpConn st =
     (let st0 = st\<lparr>deadline := initialDeadline\<rparr>;
          ip = IP (RemoteAddr tcpConn);
          refused = [TCPClose tcpConn,
                     HandleEvent (ConnectionClosedEvent (LocalAddr tcpConn) (RemoteAddr tcpConn))]
      in if MaxConnections cfg > 0 \<and> openConnections st0 \<ge> MaxConnections cfg
           then (st0, refused)
         else if MaxClientConnections cfg > 0 \<and>
                 (case map_get (clientConnections st0) ip of
                    (val, ok) \<Rightarrow> ok \<and> val \<ge> MaxClientConnections cfg)
           then (st0, refused)
         else
           let st1 = st0\<lparr>wg := wg st0 + 1,
                        openConnections := openConnections st0 + 1,
                        clientConnections := map_bump (clientConnections st0) ip 1\<rparr>
           in (st1\<lparr>tasks := tasks st1 @ [tcpConn]\<rparr>,
               [WaitGroupAdd] @
               (if openConnections st1 = MaxConnections cfg
                then [HandleEvent MaxConnectionsEvent] else []) @
               (if fst (map_get (clientConnections st1) ip) = MaxClientConnections cfg
                then [HandleEvent (MaxClientConnectionsEvent (LocalAddr tcpConn) (RemoteAddr tcpConn))]
                else []) @
               (if MaxConnectionDuration cfg > 0
                then [TCPSetDeadline tcpConn (MaxConnectionDuration cfg)] else []) @
               [HandleEvent (ConnectionOpenedEvent (LocalAddr tcpConn) (RemoteAddr tcpConn)),
                GoHandleTCPConn tcpConn]))"

text \<open>One \<open>select\<close> of the loop, for the cases that stay in the loop.\<close>

definition listen_step :: "Config \<Rightarrow> listen_case \<Rightarrow> listen_state \<Rightarrow> listen_state \<times> acc_effect list" where
  "listen_step cfg c st =
     (case c of
        SelCtxDone \<Rightarrow> (st, [])
      | SelSignal \<Rightarrow> (st\<lparr>ctx_cancelled := True\<rparr>, [CtxCancel, SignalStop])
      | SelClose tcpConn \<Rightarrow> close_notification cfg tcpConn st
      | AcceptTimeout \<Rightarrow> (st\<lparr>deadline := deadline st * 2\<rparr>, [])
      | AcceptError err \<Rightarrow> (st, [HandleEvent (ConnectionFailedEvent err)])
      | AcceptOk tcpConn \<Rightarrow> admit cfg tcpConn st)"

text \<open>
  The loop of \<open>listen\<close>, run on what the successive \<open>select\<close>s find. \<open>Serving\<close>: the
  list is used up and the loop is at its top again. \<open>Stopped\<close>: the loop was left
  through \<open>break OUTER\<close>. \<open>Crashed\<close>: a panic. \<open>Impossible\<close>: the list offers a
  case that the environment cannot produce in that state.
\<close>

datatype listen_outcome =
    Serving listen_state "acc_effect list"
  | Stopped listen_state "acc_effect list"
  | Crashed listen_state "acc_effect list"
  | Impossible

fun listen_from :: "Config \<Rightarrow> listen_case list \<Rightarrow> listen_state \<Rightarrow> acc_effect list \<Rightarrow> listen_outcome" where
  "listen_from cfg [] st out = Serving st out"
| "listen_from cfg (c # cs) st out =
     (case iteration_head cfg st of (st1, e1) \<Rightarrow>
        if \<not> enabled cfg c st1 then Impossible
        else if c = SelCtxDone
          then Stopped st1 (out @ e1 @ [HandleEvent ServerStoppedEvent, ListenerClose,
                                        HandleEvent ListenerClosedEvent])
        else (case listen_step cfg c st1 of (st2, e2) \<Rightarrow>
                if WaitGroupPanic \<in> set e2 then Crashed st2 (out @ e1 @ e2)
                else listen_from cfg cs st2 (out @ e1 @ e2)))"

text \<open>
  \<open>listen\<close>: the loop from its initial state; after \<open>break OUTER\<close> it waits on the
  wait group, which lets it return only when the counter is 0.
\<close>

datatype listen_result =
  ListenReturned | ListenWaiting | ListenServing | ListenCrashed | ListenImpossible

definition listen :: "Config \<Rightarrow> listen_case list \<Rightarrow> listen_result \<times> acc_effect list" where
  "listen cfg cs =
     (case listen_from cfg cs init_listen [] of
        Serving st out \<Rightarrow> (ListenServing, out)
      | Stopped st out \<Rightarrow> (if wg st = 0 then ListenReturned else ListenWaiting, out)
      | Crashed st out \<Rightarrow> (ListenCrashed, out)
      | Impossible \<Rightarrow> (ListenImpossible, []))"

text \<open>
  \<open>ListenAndServe\<close>. \<open>net.ResolveTCPAddr\<close> and \<open>net.ListenTCP\<close> are the
  operating system's; their results for the address at hand are parameters. The result
  is the error returned (\<open>Some None\<close> for nil), or \<open>None\<close> when the call has not
  returned, together with the server as it is then and the effects so far.
\<close>

record net_env =
  ResolveTCPAddr :: "string \<Rightarrow> error + TCPAddr"
  ListenTCP :: "TCPAddr \<Rightarrow> error + TCPAddr"

definition ListenAndServe ::
  "net_env \<Rightarrow> listen_case list \<Rightarrow> Server \<Rightarrow> error option option \<times> Server \<times> acc_effect list" where
  "ListenAndServe N cs s =
     (let e0 = [HandleEvent ServerStartedEvent];
          s1 = (if Addr (config s) = [] then s\<lparr>config := (config s)\<lparr>Addr := '':22''\<rparr>\<rparr> else s)
      in case ResolveTCPAddr N (Addr (config s1)) of
           Inl e \<Rightarrow> (Some (Some (Errorf ''ssh server: Invalid tcp address'')), s1, e0)
         | Inr sshAddr \<Rightarrow>
            (case ListenTCP N sshAddr of
               Inl err \<Rightarrow> (Some (Some err), s1, e0)
             | Inr laddr \<Rightarrow>
                let s2 = s1\<lparr>ServerAddr := Some laddr, listener := Some laddr\<rparr>;
                    e1 = e0 @ [HandleEvent (ListenerOpenedEvent laddr)]
                in (case listen (config s2) cs of (r, e2) \<Rightarrow>
                      (if r = ListenReturned then Some None else None, s2, e1 @ e2))))"

section \<open>Reading outcomes, and inputs to run the model on\<close>

definition loop_effects :: "loop_outcome \<Rightarrow> effect list" where
  "loop_effects oc =
     (case oc of Returned st out \<Rightarrow> out | Running st out \<Rightarrow> out
               | Panicked st out \<Rightarrow> out | Blocked st out \<Rightarrow> out)"

definition loop_final :: "loop_outcome \<Rightarrow> loop_state" where
  "loop_final oc =
     (case oc of Returned st out \<Rightarrow> st | Running st out \<Rightarrow> st
               | Panicked st out \<Rightarrow> st | Blocked st out \<Rightarrow> st)"

definition has_returned :: "loop_outcome \<Rightarrow> bool" where
  "has_returned oc = (case oc of Returned st out \<Rightarrow> True | _ \<Rightarrow> False)"

text \<open>
  The SSH wire format of a string (RFC 4251): a big-endian \<open>uint32\<close> length, then that
  many bytes. A struct field keeps its zero value when its bytes cannot be read.
\<close>

fun parseString :: "bytes \<Rightarrow> (string \<times> bytes) option" where
  "parseString (a # b # c # d # rest) =
     (let n = be_uint32 [a, b, c, d]
      in if length rest < n then None else Some (take n rest, drop n rest))"
| "parseString _ = None"

definition wire_string :: "string \<Rightarrow> bytes" where
  "wire_string s = Marshal_uint32 (of_nat (length s)) @ s"

text \<open>
  One choice of the outside functions, to run the model on concrete requests: strings
  are decoded from the wire format, a command line is split at blanks only, and the PTY
  codec accepts nothing.
\<close>

fun split_blanks :: "string \<Rightarrow> string \<Rightarrow> string list" where
  "split_blanks [] w = (if w = [] then [] else [w])"
| "split_blanks (c # cs) w =
     (if c = CHR '' '' then (if w = [] then [] else [w]) @ split_blanks cs []
      else split_blanks cs (w @ [c]))"

definition wire_extern :: extern where
  "wire_extern =
     \<lparr>Unmarshal1 = (\<lambda>b. case parseString b of None \<Rightarrow> [] | Some (s, r) \<Rightarrow> s),
      Unmarshal2 = (\<lambda>b. case parseString b of
                           None \<Rightarrow> ([], [])
                         | Some (k, r) \<Rightarrow>
                             (case parseString r of None \<Rightarrow> (k, []) | Some (v, r') \<Rightarrow> (k, v))),
      shlex_Split = (\<lambda>s. split_blanks s []),
      parsePtyRequest =
        (\<lambda>b. (\<lparr>Term = [], PtyWindow = \<lparr>Cols = 0, Rows = 0, WidthPx = 0, HeightPx = 0\<rparr>,
                 Modes = []\<rparr>, False)),
      parseWinchRequest = (\<lambda>b. (\<lparr>Cols = 0, Rows = 0, WidthPx = 0, HeightPx = 0\<rparr>, False))\<rparr>"

text \<open>
  Two handlers: one that returns 0 at once, as \<open>DefaultHandler\<close> does, and one that
  registers a signal sink first, as the documentation of \<open>Signals\<close> describes.
\<close>

definition returns_0 :: "session \<Rightarrow> handler_run" where
  "returns_0 s = \<lparr>calls = [], returns = Some 0\<rparr>"

definition registers_sink :: "session \<Rightarrow> handler_run" where
  "registers_sink s = \<lparr>calls = [CallSignals (Some 3)], returns = Some 0\<rparr>"

definition session_handler :: sessionChannelHandler where
  "session_handler = \<lparr>handler = returns_0, allowPty = True, allowAgentFwd = False\<rparr>"

definition request :: "string \<Rightarrow> bytes \<Rightarrow> Request" where
  "request t p = \<lparr>Type = t, WantReply = True, Payload = p\<rparr>"

section \<open>Auxiliary notions for the statements\<close>

text \<open>
  What the two passes of \<open>Write\<close> amount to, as one pass: a line feed that is not
  preceded by a carriage return receives one; everything else stays.
\<close>

fun crlf :: "bytes \<Rightarrow> bytes" where
  "crlf [] = []"
| "crlf [x] = (if x = LF then [CR, LF] else [x])"
| "crlf (x # y # ys) =
     (if x = LF then CR # LF # crlf (y # ys)
      else if x = CR \<and> y = LF then CR # LF # crlf ys
      else x # crlf (y # ys))"

text \<open>The signals that a list of \<open>signal\<close> requests decodes to, in order of arrival.\<close>

fun decoded_signals :: "extern \<Rightarrow> Request list \<Rightarrow> os_Signal list" where
  "decoded_signals X [] = []"
| "decoded_signals X (r # rs) =
     (case toSignal (Unmarshal1 X (Payload r)) of
        Inl err \<Rightarrow> decoded_signals X rs
      | Inr sig \<Rightarrow> sig # decoded_signals X rs)"

definition is_exit_status :: "effect \<Rightarrow> bool" where
  "is_exit_status e = (case e of SendRequest name want payload \<Rightarrow> name = ''exit-status'' | _ \<Rightarrow> False)"

text \<open>A session on which a PTY request has been accepted, to run the model on.\<close>

definition vt100 :: Pty where
  "vt100 = \<lparr>Term = ''vt100'',
            PtyWindow = \<lparr>Cols = 80, Rows = 24, WidthPx = 0, HeightPx = 0\<rparr>, Modes = []\<rparr>"

definition pty_session :: session where
  "pty_session = new_session\<lparr>pty := Some vt100,
                   winch := Some \<lparr>queue = [PtyWindow vt100], closed = False\<rparr>\<rparr>"

text \<open>A channel that takes every byte handed to it.\<close>

definition write_all :: "bytes \<Rightarrow> int \<times> error option" where
  "write_all b = (int (length b), None)"

text \<open>
  The registry as the acceptor keeps it: the total equals the sum of the per-IP counts,
  and no count is negative.
\<close>

definition registry_ok :: "listen_state \<Rightarrow> bool" where
  "registry_ok st =
     (openConnections st = sum_list (map snd (clientConnections st)) \<and>
      0 \<le> openConnections st \<and>
      list_all (\<lambda>(ip, n). 0 \<le> n) (clientConnections st))"

text \<open>
  How the counters follow the running connection tasks: the wait group and the total
  count them, and the entry of an IP counts those from this IP.
\<close>

definition from_ip :: "string \<Rightarrow> TCPConn list \<Rightarrow> TCPConn list" where
  "from_ip ip cs = filter (\<lambda>c. IP (RemoteAddr c) = ip) cs"

definition tracked :: "listen_state \<Rightarrow> bool" where
  "tracked st =
     (distinct (map fst (clientConnections st)) \<and>
      wg st = int (length (tasks st)) \<and>
      openConnections st = int (length (tasks st)) \<and>
      sum_list (map snd (clientConnections st)) = int (length (tasks st)) \<and>
      (\<forall>ip. fst (map_get (clientConnections st) ip) = int (length (from_ip ip (tasks st)))))"

definition final_state :: "listen_outcome \<Rightarrow> listen_state option" where
  "final_state oc =
     (case oc of
        Serving st out \<Rightarrow> Some st
      | Stopped st out \<Rightarrow> Some st
      | Crashed st out \<Rightarrow> None
      | Impossible \<Rightarrow> None)"

text \<open>Configurations and connections to run the acceptor on.\<close>

definition limits :: "int \<Rightarrow> int \<Rightarrow> Config" where
  "limits cap ip_cap =
     \<lparr>Addr = '':2222'', MaxConnections = cap, MaxClientConnections = ip_cap,
      MaxDeadline = Second, MaxConnectionDuration = 0,
      RequestHandlers = Map.empty, ChannelHandlers = [''session'' \<mapsto> 0],
      ConnectionCallback = None, EventHandler = Some 0, PrivateKey = None,
      ServerConfig = None, SignalChan = None\<rparr>"

definition conn_from :: "string \<Rightarrow> nat \<Rightarrow> TCPConn" where
  "conn_from ip port =
     \<lparr>LocalAddr = \<lparr>IP = ''10.0.0.1'', Port = 2222\<rparr>, RemoteAddr = \<lparr>IP = ip, Port = port\<rparr>\<rparr>"

text \<open>The acceptor with two connections running, from two addresses.\<close>

definition two_open :: listen_state where
  "two_open =
     \<lparr>wg = 2, openConnections = 2,
      clientConnections = [(''10.0.0.7'', 1), (''10.0.0.8'', 1)],
      deadline = 5000000, ctx_cancelled = False,
      tasks = [conn_from ''10.0.0.8'' 40002, conn_from ''10.0.0.7'' 40003]\<rparr>"

text \<open>
  A choice of the library and of the network, to run the server's model on: a key is
  parsed back from its bytes as an Ed25519 key, every address resolves, and every listen
  succeeds on the address asked for.
\<close>

definition toy_lib :: ssh_lib where
  "toy_lib =
     \<lparr>FingerprintLegacyMD5 = (\<lambda>k. ''md5 of '' @ key_Marshal k),
      ParsePublicKey = (\<lambda>b. Inr (PublicKey ''ssh-ed25519'' b)),
      AddHostKey = (\<lambda>k ks. ks @ [k])\<rparr>"

definition toy_net :: net_env where
  "toy_net =
     \<lparr>ResolveTCPAddr = (\<lambda>a. Inr \<lparr>IP = ''0.0.0.0'', Port = 22\<rparr>),
      ListenTCP = (\<lambda>a. Inr a)\<rparr>"

definition password_only :: ServerConfig where
  "password_only =
     \<lparr>PublicKeyCallback = None, hostKeys = [], PasswordCallback = Some 0,
      AuthLogCallback = None, NoClientAuth = False\<rparr>"

text \<open>A configuration that leaves the bind address empty, and the server made from it.\<close>

definition no_addr_config :: Config where
  "no_addr_config = (limits 0 0)\<lparr>Addr := [], ServerConfig := Some password_only\<rparr>"

definition no_addr_server :: Server where
  "no_addr_server =
     \<lparr>config = no_addr_config, cancelled = False, ServerAddr = None, listener = None\<rparr>"

text \<open>A user's public-key callback that accepts every key and returns nil permissions.\<close>

definition accept_any :: PublicKeyCallback where
  "accept_any meta key = (None, None)"

text \<open>One that rejects every key.\<close>

definition reject_all :: PublicKeyCallback where
  "reject_all meta key = (None, Some (Errorf ''error: unauthorized''))"

section \<open>The request switch, case by case\<close>

lemma serve_shell:
  "Type req = ''shell'' \<or> Type req = ''exec'' \<Longrightarrow>
   serve_request h X req st =
     (st\<lparr>sess := fst (handle (handler h) X req (sess st))\<rparr>,
      snd (handle (handler h) X req (sess st)))"
  by (auto simp: serve_request_def split: prod.split)

lemma serve_env:
  "Type req = ''env'' \<Longrightarrow>
   serve_request h X req st =
     (if hasBeenHandled (sess st) then (st, [Reply False])
      else (st\<lparr>sess := (sess st)\<lparr>env := env (sess st) @
                 [fst (Unmarshal2 X (Payload req)) @ ''='' @ snd (Unmarshal2 X (Payload req))]\<rparr>\<rparr>,
            [Reply True]))"
  by (simp add: serve_request_def split: prod.split)

lemma serve_signal:
  "Type req = ''signal'' \<Longrightarrow>
   serve_request h X req st =
     (case toSignal (Unmarshal1 X (Payload req)) of
        Inl err \<Rightarrow> (st, [])
      | Inr sig \<Rightarrow>
         (case signalCh st of
            Some c \<Rightarrow> (st, [SignalSend c sig])
          | None \<Rightarrow>
              if length (signalBuffer st) < 128
              then (st\<lparr>signalBuffer := signalBuffer st @ [sig]\<rparr>, [])
              else (st, [])))"
  by (simp add: serve_request_def)

lemma serve_pty:
  "Type req = ''pty-req'' \<Longrightarrow>
   serve_request h X req st =
     (if \<not> allowPty h then (st, [Reply False])
      else (st\<lparr>sess := fst (handlePtyReq X req (sess st))\<rparr>, snd (handlePtyReq X req (sess st))))"
  by (simp add: serve_request_def split: prod.split)

lemma serve_winch:
  "Type req = ''window-change'' \<Longrightarrow>
   serve_request h X req st =
     (case pty (sess st) of
        None \<Rightarrow> (st, [Reply False])
      | Some p \<Rightarrow>
         if snd (parseWinchRequest X (Payload req)) then
           (st\<lparr>sess := fst (winch_send (fst (parseWinchRequest X (Payload req)))
                              ((sess st)\<lparr>pty := Some (p\<lparr>PtyWindow := fst (parseWinchRequest X (Payload req))\<rparr>)\<rparr>))\<rparr>,
            snd (winch_send (fst (parseWinchRequest X (Payload req)))
                              ((sess st)\<lparr>pty := Some (p\<lparr>PtyWindow := fst (parseWinchRequest X (Payload req))\<rparr>)\<rparr>))
              @ [Reply True])
         else (st, [Reply False]))"
  by (simp add: serve_request_def split: prod.split option.split)

lemma serve_agent:
  "Type req = agentRequestType \<Longrightarrow>
   serve_request h X req st =
     (if allowAgentFwd h
      then (st\<lparr>sess := (sess st)\<lparr>agentRequested := 1\<rparr>\<rparr>, [Reply True])
      else (st, [Reply False]))"
  by (simp add: serve_request_def agentRequestType_def)

lemma serve_other:
  "Type req \<noteq> ''shell'' \<Longrightarrow> Type req \<noteq> ''exec'' \<Longrightarrow> Type req \<noteq> ''env'' \<Longrightarrow>
   Type req \<noteq> ''signal'' \<Longrightarrow> Type req \<noteq> ''pty-req'' \<Longrightarrow>
   Type req \<noteq> ''window-change'' \<Longrightarrow> Type req \<noteq> agentRequestType \<Longrightarrow>
   serve_request h X req st = (st, [Reply False])"
  by (simp add: serve_request_def)

lemma request_type_cases:
  obtains (shell) "Type req = ''shell'' \<or> Type req = ''exec''"
  | (env) "Type req = ''env''"
  | (signal) "Type req = ''signal''"
  | (pty) "Type req = ''pty-req''"
  | (winch) "Type req = ''window-change''"
  | (agent) "Type req = agentRequestType"
  | (other) "Type req \<noteq> ''shell''" "Type req \<noteq> ''exec''" "Type req \<noteq> ''env''"
      "Type req \<noteq> ''signal''" "Type req \<noteq> ''pty-req''"
      "Type req \<noteq> ''window-change''" "Type req \<noteq> agentRequestType"
  by blast

section \<open>Signals: names and the request loop\<close>

lemma rfc4254_names_set:
  "set rfc4254_names = {SIGABRT, SIGALRM, SIGFPE, SIGHUP, SIGILL, SIGINT, SIGKILL, SIGPIPE,
     SIGQUIT, SIGSEGV, SIGTERM, SIGUSR1, SIGUSR2}"
  by (simp add: rfc4254_names_def SIGABRT_def SIGALRM_def SIGFPE_def SIGHUP_def SIGILL_def
      SIGINT_def SIGKILL_def SIGPIPE_def SIGQUIT_def SIGSEGV_def SIGTERM_def SIGUSR1_def
      SIGUSR2_def)

lemma toSignal_error_iff: "(\<exists>e. toSignal name = Inl e) \<longleftrightarrow> name \<notin> set rfc4254_names"
  unfolding rfc4254_names_set by (simp add: toSignal_def)

text \<open>
  Claim C10. \<open>toSignal\<close> returns an error exactly for the names outside the thirteen
  RFC 4254 shortnames; and a \<open>signal\<close> request whose decoded name is outside them
  leaves the whole state of the request loop as it was (sink, buffer, and every field of
  the session) and has no effect at all: no reply, nothing sent to a sink.
\<close>

theorem unknown_signal_ignored:
  "((\<exists>e. toSignal name = Inl e) \<longleftrightarrow> name \<notin> set rfc4254_names) \<and>
   (Type req = ''signal'' \<and> Unmarshal1 X (Payload req) \<notin> set rfc4254_names \<longrightarrow>
      loop_step h X (RecvReq (Some req)) st = (st, []))"
proof -
  have a: "(\<exists>e. toSignal name = Inl e) \<longleftrightarrow> name \<notin> set rfc4254_names" for name
    by (rule toSignal_error_iff)
  have b: "loop_step h X (RecvReq (Some req)) st = (st, [])"
    if "Type req = ''signal''" "Unmarshal1 X (Payload req) \<notin> set rfc4254_names"
  proof -
    from that(2) a obtain e where "toSignal (Unmarshal1 X (Payload req)) = Inl e" by blast
    with that(1) show ?thesis by (simp add: loop_step_def serve_request_def)
  qed
  from a b show ?thesis by blast
qed

lemma Unmarshal1_wire_STOP: "Unmarshal1 wire_extern (wire_string ''STOP'') = ''STOP''"
  by (simp add: wire_extern_def wire_string_def Marshal_uint32_def be_uint32_def)

theorem unknown_signal_ignored_witness:
  "Type (request ''signal'' (wire_string ''STOP'')) = ''signal'' \<and>
   Unmarshal1 wire_extern (Payload (request ''signal'' (wire_string ''STOP''))) = ''STOP'' \<and>
   ''STOP'' \<notin> set rfc4254_names \<and>
   (\<exists>e. toSignal ''STOP'' = Inl e) \<and>
   loop_step session_handler wire_extern
     (RecvReq (Some (request ''signal'' (wire_string ''STOP''))))
     (init_loop\<lparr>signalCh := Some 7\<rparr>) = (init_loop\<lparr>signalCh := Some 7\<rparr>, [])"
proof -
  have n: "''STOP'' \<notin> set rfc4254_names" by (simp add: rfc4254_names_def)
  have u: "Unmarshal1 wire_extern (Payload (request ''signal'' (wire_string ''STOP''))) = ''STOP''"
    by (simp add: request_def Unmarshal1_wire_STOP)
  have t: "Type (request ''signal'' (wire_string ''STOP'')) = ''signal''"
    by (simp add: request_def)
  from unknown_signal_ignored [of "''STOP''" "request ''signal'' (wire_string ''STOP'')"
      wire_extern session_handler "init_loop\<lparr>signalCh := Some 7\<rparr>"] n u t
  show ?thesis by simp
qed

section \<open>The handled flag and the user's handler\<close>

lemma Exit_handled:
  "handled (fst (snd (Exit e code s))) = handled s \<and>
   count_list (snd (snd (Exit e code s))) CallHandler = 0"
  by (simp add: Exit_def Let_def split: option.split)

lemma run_calls_handled:
  "handled (fst (run_calls cs s)) = handled s \<and>
   count_list (fst (snd (run_calls cs s))) CallHandler = 0"
proof (induction cs s rule: run_calls.induct)
  case (1 s)
  then show ?case by simp
next
  case (2 c cs s)
  then show ?case by simp
next
  case (3 send_err code cs s)
  obtain r s' es where ex: "Exit send_err code s = (r, s', es)"
    by (cases "Exit send_err code s")
  from Exit_handled[of send_err code s] ex
  have h: "handled s' = handled s" and z: "count_list es CallHandler = 0" by simp_all
  show ?case
  proof (cases "r = ExitPanic")
    case True
    with ex h z show ?thesis by simp
  next
    case False
    with "3.IH"[OF ex[symmetric] refl False] ex h z show ?thesis
      by (simp add: case_prod_unfold)
  qed
next
  case (4 cs s)
  then show ?case by (simp add: case_prod_unfold)
qed

lemma handle_again:
  "handled s \<noteq> 0 \<Longrightarrow> handle hdl X req s = (s, [Reply False])"
  by (simp add: handle_def)

lemma handle_first:
  assumes "handled s = 0"
  shows "handled (fst (handle hdl X req s)) = 1 \<and>
         count_list (snd (handle hdl X req s)) CallHandler = 1 \<and>
         take 2 (snd (handle hdl X req s)) = [Reply True, CallHandler]"
proof -
  let ?s1 = "s\<lparr>handled := 1, cmd := shlex_Split X (Unmarshal1 X (Payload req))\<rparr>"
  from run_calls_handled[of "calls (hdl ?s1)" ?s1]
  have "handled (fst (run_calls (calls (hdl ?s1)) ?s1)) = 1"
    and "count_list (fst (snd (run_calls (calls (hdl ?s1)) ?s1))) CallHandler = 0"
    by simp_all
  with assms show ?thesis
    by (simp add: handle_def Let_def case_prod_unfold split: option.split)
qed

lemma handlePtyReq_handled:
  "handled (fst (handlePtyReq X req s)) = handled s \<and>
   count_list (snd (handlePtyReq X req s)) CallHandler = 0"
  by (simp add: handlePtyReq_def split: prod.split)

lemma winch_send_handled:
  "handled (fst (winch_send w s)) = handled s \<and> count_list (snd (winch_send w s)) CallHandler = 0"
  by (simp add: winch_send_def split: option.split)

lemma serve_request_handled:
  assumes hd: "handled (sess st) \<noteq> 0"
  shows "handled (sess (fst (serve_request h X req st))) \<noteq> 0 \<and>
         count_list (snd (serve_request h X req st)) CallHandler = 0"
proof (cases rule: request_type_cases[of req])
  case shell
  with hd show ?thesis by (simp add: serve_shell handle_again)
next
  case env
  with hd show ?thesis by (simp add: serve_env)
next
  case signal
  with hd show ?thesis by (simp add: serve_signal split: sum.split option.split)
next
  case pty
  with hd show ?thesis by (simp add: serve_pty handlePtyReq_handled)
next
  case winch
  with hd show ?thesis by (simp add: serve_winch winch_send_handled split: option.split)
next
  case agent
  with hd show ?thesis by (simp add: serve_agent)
next
  case other
  with hd show ?thesis by (simp add: serve_other)
qed

lemma serve_request_spawn:
  assumes hd: "handled (sess st) = 0"
  shows "count_list (snd (serve_request h X req st)) CallHandler \<le> 1 \<and>
         (count_list (snd (serve_request h X req st)) CallHandler = 1 \<longrightarrow>
            handled (sess (fst (serve_request h X req st))) \<noteq> 0)"
proof (cases rule: request_type_cases[of req])
  case shell
  with hd handle_first[of "sess st" "handler h" X req] show ?thesis by (simp add: serve_shell)
next
  case env
  with hd show ?thesis by (simp add: serve_env)
next
  case signal
  with hd show ?thesis by (simp add: serve_signal split: sum.split option.split)
next
  case pty
  with hd show ?thesis by (simp add: serve_pty handlePtyReq_handled)
next
  case winch
  with hd show ?thesis by (simp add: serve_winch winch_send_handled split: option.split)
next
  case agent
  with hd show ?thesis by (simp add: serve_agent)
next
  case other
  with hd show ?thesis by (simp add: serve_other)
qed

lemma loop_step_handled:
  assumes "loop_step h X c st = (st', es)" and "handled (sess st) \<noteq> 0"
  shows "handled (sess st') \<noteq> 0 \<and> count_list es CallHandler = 0"
proof (cases c)
  case (RecvReq r)
  show ?thesis
  proof (cases r)
    case None
    with RecvReq assms show ?thesis by (auto simp: loop_step_def)
  next
    case (Some req)
    with RecvReq assms serve_request_handled[of st h X req] show ?thesis
      by (auto simp: loop_step_def)
  qed
qed (use assms in \<open>auto simp: loop_step_def\<close>)

lemma loop_step_spawn:
  assumes "loop_step h X c st = (st', es)" and "handled (sess st) = 0"
  shows "count_list es CallHandler \<le> 1 \<and>
         (count_list es CallHandler = 1 \<longrightarrow> handled (sess st') \<noteq> 0)"
proof (cases c)
  case (RecvReq r)
  show ?thesis
  proof (cases r)
    case None
    with RecvReq assms show ?thesis by (auto simp: loop_step_def)
  next
    case (Some req)
    with RecvReq assms serve_request_spawn[of st h X req] show ?thesis
      by (auto simp: loop_step_def)
  qed
qed (use assms in \<open>auto simp: loop_step_def\<close>)

lemma run_handled:
  "handled (sess st) \<noteq> 0 \<Longrightarrow>
     handled (sess (loop_final (handleRequests_from h X cs st out))) \<noteq> 0 \<and>
     count_list (loop_effects (handleRequests_from h X cs st out)) CallHandler
       = count_list out CallHandler"
proof (induction cs arbitrary: st out)
  case Nil
  then show ?case by (simp add: loop_final_def loop_effects_def)
next
  case (Cons c cs)
  obtain st' es where step: "loop_step h X c st = (st', es)" by (cases "loop_step h X c st")
  from loop_step_handled[OF step Cons.prems]
  have h': "handled (sess st') \<noteq> 0" and z: "count_list es CallHandler = 0" by auto
  from Cons.IH[OF h', of "out @ es"] step h' z Cons.prems
  show ?case by (simp add: loop_final_def loop_effects_def)
qed

lemma run_at_most_once:
  "handled (sess st) = 0 \<Longrightarrow>
     count_list (loop_effects (handleRequests_from h X cs st out)) CallHandler
       \<le> count_list out CallHandler + 1"
proof (induction cs arbitrary: st out)
  case Nil
  then show ?case by (simp add: loop_effects_def)
next
  case (Cons c cs)
  obtain st' es where step: "loop_step h X c st = (st', es)" by (cases "loop_step h X c st")
  note sp = loop_step_spawn[OF step Cons.prems]
  show ?case
  proof (cases "handled (sess st') = 0")
    case True
    with sp have "count_list es CallHandler = 0" by auto
    with Cons.IH[OF True, of "out @ es"] step show ?thesis
      by (simp add: loop_effects_def)
  next
    case False
    from run_handled[OF False, of h X cs "out @ es"] sp step show ?thesis
      by (simp add: loop_effects_def)
  qed
qed

text \<open>
  What holds of the handled flag: the first \<open>shell\<close> or \<open>exec\<close> request sets it,
  replies true and calls the handler; a later one replies false and changes nothing;
  over any run of the loop the handler is called at most once.
\<close>

lemma handler_called_at_most_once:
  "(Type req = ''shell'' \<or> Type req = ''exec'' \<longrightarrow>
      (handled (sess st) = 0 \<longrightarrow>
         handled (sess (fst (loop_step h X (RecvReq (Some req)) st))) = 1 \<and>
         take 2 (snd (loop_step h X (RecvReq (Some req)) st)) = [Reply True, CallHandler] \<and>
         count_list (snd (loop_step h X (RecvReq (Some req)) st)) CallHandler = 1)
    \<and> (handled (sess st) \<noteq> 0 \<longrightarrow>
         loop_step h X (RecvReq (Some req)) st = (st, [Reply False])))
   \<and> count_list (loop_effects (handleRequests h X cs)) CallHandler \<le> 1"
proof -
  have a: "handled (sess (fst (loop_step h X (RecvReq (Some req)) st))) = 1 \<and>
         take 2 (snd (loop_step h X (RecvReq (Some req)) st)) = [Reply True, CallHandler] \<and>
         count_list (snd (loop_step h X (RecvReq (Some req)) st)) CallHandler = 1"
    if "Type req = ''shell'' \<or> Type req = ''exec''" "handled (sess st) = 0"
    using that handle_first[of "sess st" "handler h" X req]
    by (simp add: loop_step_def serve_shell)
  have b: "loop_step h X (RecvReq (Some req)) st = (st, [Reply False])"
    if "Type req = ''shell'' \<or> Type req = ''exec''" "handled (sess st) \<noteq> 0"
    using that by (simp add: loop_step_def serve_shell handle_again)
  have c: "count_list (loop_effects (handleRequests h X cs)) CallHandler \<le> 1"
    using run_at_most_once[of init_loop h X cs "[]"]
    by (simp add: handleRequests_def init_loop_def new_session_def)
  from a b c show ?thesis by blast
qed

text \<open>
  Claim C1, on the code. The claim has the handler started as a task of its own, so that
  the loop goes on to answer later requests. In the code the handler is called inside
  \<open>handle\<close>, on the task of the request loop, and only \<open>Exit\<close> is started as a task,
  after the handler has returned: a \<open>shell\<close> request with a handler that returns 0 at
  once yields the reply, the call and then the start of \<open>Exit 0\<close>. With a handler that
  registers a signal sink, as the documentation of \<open>Signals\<close> describes, the call
  never returns, because only the loop could receive the registration: the loop is
  blocked after the first reply, and the \<open>exec\<close> request that follows is never
  answered.
\<close>

theorem handler_runs_on_request_loop:
  "loop_step session_handler wire_extern (RecvReq (Some (request ''shell'' []))) init_loop
     = (init_loop\<lparr>sess := new_session\<lparr>handled := 1\<rparr>\<rparr>, [Reply True, CallHandler, GoExit 0]) \<and>
   handleRequests (session_handler\<lparr>handler := registers_sink\<rparr>) wire_extern
       [RecvReq (Some (request ''shell'' [])),
        RecvReq (Some (request ''exec'' (wire_string ''ls -l'')))]
     = Blocked (init_loop\<lparr>sess := new_session\<lparr>handled := 1\<rparr>\<rparr>)
               [Reply True, CallHandler, WaitsForever]"
  by (simp add: handleRequests_def loop_step_def serve_request_def handle_def request_def
      session_handler_def returns_0_def registers_sink_def init_loop_def new_session_def
      wire_extern_def is_Panic_def)

section \<open>Writing through a PTY\<close>

lemma CR_neq_LF [simp]: "CR \<noteq> LF" "LF \<noteq> CR"
  by (simp_all add: CR_def LF_def)

lemma pass1_Nil [simp]: "bytes_Replace [] [LF] [CR, LF] = []"
  by (simp add: bytes_Replace.simps)

lemma pass1_Cons [simp]:
  "bytes_Replace (x # xs) [LF] [CR, LF] =
     (if x = LF then CR # LF # bytes_Replace xs [LF] [CR, LF]
      else x # bytes_Replace xs [LF] [CR, LF])"
  by (subst bytes_Replace.simps) simp

lemma pass2_Nil [simp]: "bytes_Replace [] [CR, CR, LF] [CR, LF] = []"
  by (simp add: bytes_Replace.simps)

lemma pass2_match [simp]:
  "bytes_Replace (CR # CR # LF # xs) [CR, CR, LF] [CR, LF] =
     CR # LF # bytes_Replace xs [CR, CR, LF] [CR, LF]"
  by (subst bytes_Replace.simps) simp

lemma pass2_skip:
  "\<forall>zs. x # xs \<noteq> CR # CR # LF # zs \<Longrightarrow>
   bytes_Replace (x # xs) [CR, CR, LF] [CR, LF] = x # bytes_Replace xs [CR, CR, LF] [CR, LF]"
proof -
  assume a: "\<forall>zs. x # xs \<noteq> CR # CR # LF # zs"
  have "take (length [CR, CR, LF]) (x # xs) \<noteq> [CR, CR, LF]"
  proof
    assume "take (length [CR, CR, LF]) (x # xs) = [CR, CR, LF]"
    then have "x # xs = [CR, CR, LF] @ drop (length [CR, CR, LF]) (x # xs)"
      by (metis append_take_drop_id)
    with a show False by simp
  qed
  then show ?thesis by (subst bytes_Replace.simps) auto
qed

lemma pass1_not_LF: "bytes_Replace xs [LF] [CR, LF] \<noteq> LF # zs"
  by (cases xs) auto

text \<open>The two passes together are the one pass \<open>crlf\<close>.\<close>

lemma normalize_crlf: "normalize p = crlf p"
  unfolding normalize_def
proof (induction p rule: crlf.induct)
  case 1
  then show ?case by simp
next
  case (2 x)
  then show ?case by (simp add: pass2_skip)
next
  case (3 x y ys)
  let ?R1 = "\<lambda>s. bytes_Replace s [LF] [CR, LF]"
  let ?R2 = "\<lambda>s. bytes_Replace s [CR, CR, LF] [CR, LF]"
  show ?case
  proof (cases "x = LF")
    case True
    then have "?R2 (?R1 (x # y # ys)) = CR # LF # ?R2 (?R1 (y # ys))"
      by (simp add: pass2_skip)
    with True "3.IH"(1) show ?thesis by simp
  next
    case nLF: False
    show ?thesis
    proof (cases "x = CR \<and> y = LF")
      case True
      then have "?R2 (?R1 (x # y # ys)) = CR # LF # ?R2 (?R1 ys)"
        by simp
      with True nLF "3.IH"(2) show ?thesis by simp
    next
      case False
      have r1: "?R1 (x # y # ys) = x # ?R1 (y # ys)" using nLF by simp
      have "\<forall>zs. x # ?R1 (y # ys) \<noteq> CR # CR # LF # zs"
        using False pass1_not_LF[of ys] by auto
      then have "?R2 (x # ?R1 (y # ys)) = x # ?R2 (?R1 (y # ys))"
        by (rule pass2_skip)
      moreover have "crlf (x # y # ys) = x # crlf (y # ys)" using nLF False by auto
      ultimately show ?thesis using r1 "3.IH"(3)[OF nLF False] by simp
    qed
  qed
qed

lemma crlf_not_LF: "crlf xs \<noteq> LF # zs"
  by (induction xs rule: crlf.induct) auto

lemma crlf_Cons_other:
  "x \<noteq> LF \<Longrightarrow> \<forall>zs. t \<noteq> LF # zs \<Longrightarrow> crlf (x # t) = x # crlf t"
  by (cases t) auto

lemma crlf_idem: "crlf (crlf p) = crlf p"
proof (induction p rule: crlf.induct)
  case 1
  then show ?case by simp
next
  case (2 x)
  then show ?case by simp
next
  case (3 x y ys)
  show ?case
  proof (cases "x = LF")
    case True
    with "3.IH"(1) show ?thesis by (simp add: crlf_Cons_other crlf_not_LF)
  next
    case nLF: False
    show ?thesis
    proof (cases "x = CR \<and> y = LF")
      case True
      with nLF "3.IH"(2) show ?thesis by (simp add: crlf_Cons_other crlf_not_LF)
    next
      case False
      then have "crlf (x # y # ys) = x # crlf (y # ys)" using nLF by auto
      moreover have "crlf (x # crlf (y # ys)) = x # crlf (crlf (y # ys))"
        using nLF crlf_not_LF by (intro crlf_Cons_other) auto
      ultimately show ?thesis using "3.IH"(3)[OF nLF False] by simp
    qed
  qed
qed

lemma Write_pty:
  "pty s \<noteq> None \<Longrightarrow>
   Write chan_write p s =
     (min (fst (chan_write (normalize p))) (int (length p)), snd (chan_write (normalize p)))"
  by (cases "chan_write (normalize p)")
     (auto simp: Write_def normalize_def Let_def min_def)

text \<open>
  Claim C7. The normalization that \<open>Write\<close> applies when a PTY is attached (every
  line feed replaced by carriage return and line feed, then every carriage return,
  carriage return, line feed replaced by carriage return, line feed) is idempotent; and
  on a session with a PTY, \<open>Write\<close> hands the normalized bytes to the channel and
  returns the channel's count cut down to the length of the caller's bytes, so the count
  returned never exceeds that length.
\<close>

theorem pty_write_normalization:
  "normalize (normalize p) = normalize p \<and>
   (pty s \<noteq> None \<longrightarrow>
      Write chan_write p s =
        (min (fst (chan_write (normalize p))) (int (length p)), snd (chan_write (normalize p))) \<and>
      fst (Write chan_write p s) \<le> int (length p))"
proof -
  have "normalize (normalize p) = normalize p"
    by (simp add: normalize_crlf crlf_idem)
  moreover have "fst (Write chan_write p s) \<le> int (length p)" if "pty s \<noteq> None"
    using Write_pty[OF that, of chan_write p] by simp
  ultimately show ?thesis using Write_pty[of s chan_write p] by blast
qed

lemma normalize_example:
  "normalize [CHR ''a'', LF, CR, LF, CR, CR, LF] = [CHR ''a'', CR, LF, CR, LF, CR, CR, LF]"
  by (simp add: normalize_crlf) (simp add: LF_def CR_def)

theorem pty_write_normalization_witness:
  "pty pty_session \<noteq> None \<and>
   normalize [CHR ''a'', LF, CR, LF, CR, CR, LF] = [CHR ''a'', CR, LF, CR, LF, CR, CR, LF] \<and>
   normalize [CHR ''a'', CR, LF, CR, LF, CR, CR, LF] = [CHR ''a'', CR, LF, CR, LF, CR, CR, LF] \<and>
   write_all (normalize [CHR ''a'', LF, CR, LF, CR, CR, LF]) = (8, None) \<and>
   Write write_all [CHR ''a'', LF, CR, LF, CR, CR, LF] pty_session = (7, None)"
proof -
  have p: "pty pty_session \<noteq> None"
    by (simp add: pty_session_def)
  note T = pty_write_normalization [of "[CHR ''a'', LF, CR, LF, CR, CR, LF]" pty_session write_all]
  from T have "normalize (normalize [CHR ''a'', LF, CR, LF, CR, CR, LF])
                 = normalize [CHR ''a'', LF, CR, LF, CR, CR, LF]"
    by blast
  then have i: "normalize [CHR ''a'', CR, LF, CR, LF, CR, CR, LF]
                  = [CHR ''a'', CR, LF, CR, LF, CR, CR, LF]"
    by (simp only: normalize_example)
  from T p have "Write write_all [CHR ''a'', LF, CR, LF, CR, CR, LF] pty_session =
      (min (fst (write_all (normalize [CHR ''a'', LF, CR, LF, CR, CR, LF]))) (int (length [CHR ''a'', LF, CR, LF, CR, CR, LF])),
       snd (write_all (normalize [CHR ''a'', LF, CR, LF, CR, CR, LF])))"
    by blast
  then have w: "Write write_all [CHR ''a'', LF, CR, LF, CR, CR, LF] pty_session = (7, None)"
    by (simp add: normalize_example write_all_def)
  have a: "write_all (normalize [CHR ''a'', LF, CR, LF, CR, CR, LF]) = (8, None)"
    by (simp add: normalize_example write_all_def)
  from p i w a normalize_example show ?thesis by simp
qed

section \<open>Signals before and after a sink is registered\<close>

lemma signal_step_buffer:
  assumes "Type req = ''signal''" and "toSignal (Unmarshal1 X (Payload req)) = Inr sig"
    and "signalCh st = None"
  shows "loop_step h X (RecvReq (Some req)) st =
           (st\<lparr>signalBuffer := (if length (signalBuffer st) < 128
                                  then signalBuffer st @ [sig] else signalBuffer st)\<rparr>, [])"
  using assms by (simp add: loop_step_def serve_request_def)

lemma signal_step_unknown:
  assumes "Type req = ''signal''" and "toSignal (Unmarshal1 X (Payload req)) = Inl e"
  shows "loop_step h X (RecvReq (Some req)) st = (st, [])"
  using assms by (simp add: loop_step_def serve_request_def)

lemma signal_step_sink:
  assumes "Type req = ''signal''" and "toSignal (Unmarshal1 X (Payload req)) = Inr sig"
    and "signalCh st = Some c"
  shows "loop_step h X (RecvReq (Some req)) st = (st, [SignalSend c sig])"
  using assms by (simp add: loop_step_def serve_request_def)

lemma buffered_run:
  assumes "\<forall>r\<in>set reqs. Type r = ''signal''" and "signalCh st = None"
    and "length (signalBuffer st) \<le> 128"
  shows "handleRequests_from h X (map (\<lambda>r. RecvReq (Some r)) reqs) st out =
           Running (st\<lparr>signalBuffer := take 128 (signalBuffer st @ decoded_signals X reqs)\<rparr>) out"
  using assms
proof (induction reqs arbitrary: st)
  case Nil
  then show ?case by simp
next
  case (Cons r rs)
  from Cons.prems have ty: "Type r = ''signal''" and rest: "\<forall>r\<in>set rs. Type r = ''signal''"
    by auto
  show ?case
  proof (cases "toSignal (Unmarshal1 X (Payload r))")
    case (Inl e)
    from signal_step_unknown[OF ty Inl] Cons.IH[OF rest Cons.prems(2,3)] Inl
    show ?thesis by simp
  next
    case (Inr sig)
    let ?st' = "st\<lparr>signalBuffer := (if length (signalBuffer st) < 128
                                  then signalBuffer st @ [sig] else signalBuffer st)\<rparr>"
    have step: "loop_step h X (RecvReq (Some r)) st = (?st', [])"
      by (rule signal_step_buffer[OF ty Inr Cons.prems(2)])
    have a: "signalCh ?st' = None" using Cons.prems(2) by simp
    have b: "length (signalBuffer ?st') \<le> 128" using Cons.prems(3) by simp
    have c: "take 128 (signalBuffer ?st' @ decoded_signals X rs)
               = take 128 (signalBuffer st @ sig # decoded_signals X rs)"
    proof (cases "length (signalBuffer st) < 128")
      case True
      then have "signalBuffer ?st' @ decoded_signals X rs
                   = signalBuffer st @ sig # decoded_signals X rs"
        by simp
      then show ?thesis by (rule arg_cong)
    next
      case False
      with Cons.prems(3) have "length (signalBuffer st) = 128" by simp
      then show ?thesis by simp
    qed
    from Cons.IH[OF rest a b] step Inr c show ?thesis by simp
  qed
qed

text \<open>
  Claim C6. A \<open>signal\<close> request with a valid name that arrives while no sink is registered is
  appended to the buffer if fewer than 128 signals are buffered and is dropped otherwise,
  with no effect at all (no reply, no error); while a sink is registered it is sent to
  the sink by the loop itself. On registration of a sink a separate task is started with
  the buffer, unless it is empty, and that task sends the buffered signals to the sink in
  their order. A run of \<open>signal\<close> requests without a sink leaves in the buffer the
  first 128 of what was there followed by the decoded signals, in order of arrival.
\<close>

theorem signal_buffering:
  "(Type req = ''signal'' \<and> toSignal (Unmarshal1 X (Payload req)) = Inr sig \<longrightarrow>
      (signalCh st = None \<longrightarrow>
         loop_step h X (RecvReq (Some req)) st =
           (st\<lparr>signalBuffer := (if length (signalBuffer st) < 128
                                  then signalBuffer st @ [sig] else signalBuffer st)\<rparr>, []))
    \<and> (signalCh st = Some c \<longrightarrow>
         loop_step h X (RecvReq (Some req)) st = (st, [SignalSend c sig])))
   \<and> loop_step h X (RecvSignalCh (Some c)) st =
        (st\<lparr>signalCh := Some c\<rparr>,
         if signalBuffer st = [] then [] else [GoDrain (Some c) (signalBuffer st)])
   \<and> drain_task (Some c) buf = map (SignalSend c) buf
   \<and> ((\<forall>r\<in>set reqs. Type r = ''signal'') \<and> signalCh st = None \<and>
        length (signalBuffer st) \<le> 128 \<longrightarrow>
        handleRequests_from h X (map (\<lambda>r. RecvReq (Some r)) reqs) st out =
          Running (st\<lparr>signalBuffer := take 128 (signalBuffer st @ decoded_signals X reqs)\<rparr>) out)"
proof -
  have reg: "loop_step h X (RecvSignalCh (Some c)) st =
        (st\<lparr>signalCh := Some c\<rparr>,
         if signalBuffer st = [] then [] else [GoDrain (Some c) (signalBuffer st)])"
    by (simp add: loop_step_def)
  have dr: "drain_task (Some c) buf = map (SignalSend c) buf"
    by (simp add: drain_task_def)
  from reg dr signal_step_buffer[of req X sig st h] signal_step_sink[of req X sig st c h]
    buffered_run[of reqs st h X out]
  show ?thesis by blast
qed

lemma decode_INT: "toSignal (Unmarshal1 wire_extern (Payload (request ''signal'' (wire_string ''INT'')))) = Inr syscall_SIGINT"
  by (simp add: request_def wire_extern_def wire_string_def Marshal_uint32_def be_uint32_def
      toSignal_def SIGABRT_def SIGALRM_def SIGFPE_def SIGHUP_def SIGILL_def SIGINT_def)

lemma decode_TERM: "toSignal (Unmarshal1 wire_extern (Payload (request ''signal'' (wire_string ''TERM'')))) = Inr syscall_SIGTERM"
  by (simp add: request_def wire_extern_def wire_string_def Marshal_uint32_def be_uint32_def
      toSignal_def SIGABRT_def SIGALRM_def SIGFPE_def SIGHUP_def SIGILL_def SIGINT_def
      SIGKILL_def SIGPIPE_def SIGQUIT_def SIGSEGV_def SIGTERM_def)

theorem signal_buffering_witness:
  "Type (request ''signal'' (wire_string ''INT'')) = ''signal'' \<and>
   toSignal (Unmarshal1 wire_extern (Payload (request ''signal'' (wire_string ''INT''))))
     = Inr syscall_SIGINT \<and>
   signalCh init_loop = None \<and> length (signalBuffer init_loop) \<le> 128 \<and>
   handleRequests_from session_handler wire_extern
     (map (\<lambda>r. RecvReq (Some r))
        [request ''signal'' (wire_string ''INT''), request ''signal'' (wire_string ''TERM'')])
     init_loop []
     = Running (init_loop\<lparr>signalBuffer := [syscall_SIGINT, syscall_SIGTERM]\<rparr>) [] \<and>
   loop_step session_handler wire_extern (RecvSignalCh (Some 3))
     (init_loop\<lparr>signalBuffer := [syscall_SIGINT, syscall_SIGTERM]\<rparr>)
     = (init_loop\<lparr>signalBuffer := [syscall_SIGINT, syscall_SIGTERM], signalCh := Some 3\<rparr>,
        [GoDrain (Some 3) [syscall_SIGINT, syscall_SIGTERM]]) \<and>
   drain_task (Some 3) [syscall_SIGINT, syscall_SIGTERM]
     = [SignalSend 3 syscall_SIGINT, SignalSend 3 syscall_SIGTERM] \<and>
   loop_step session_handler wire_extern
     (RecvReq (Some (request ''signal'' (wire_string ''INT''))))
     (init_loop\<lparr>signalCh := Some 3\<rparr>)
     = (init_loop\<lparr>signalCh := Some 3\<rparr>, [SignalSend 3 syscall_SIGINT])"
proof -
  let ?sigint = "request ''signal'' (wire_string ''INT'')"
  let ?sigterm = "request ''signal'' (wire_string ''TERM'')"
  let ?buf = "[syscall_SIGINT, syscall_SIGTERM]"
  have ty: "Type ?sigint = ''signal''" "\<forall>r\<in>set [?sigint, ?sigterm]. Type r = ''signal''"
    by (simp_all add: request_def)
  have nc: "signalCh init_loop = None" "length (signalBuffer init_loop) \<le> 128"
    by (simp_all add: init_loop_def)
  have dec: "decoded_signals wire_extern [?sigint, ?sigterm] = ?buf"
    by (simp add: decode_INT decode_TERM)
  note A = signal_buffering [of ?sigint wire_extern syscall_SIGINT init_loop session_handler 3
      ?buf "[?sigint, ?sigterm]" "[]"]
  note B = signal_buffering [of ?sigint wire_extern syscall_SIGINT
      "init_loop\<lparr>signalBuffer := ?buf\<rparr>" session_handler 3 ?buf "[]" "[]"]
  note C = signal_buffering [of ?sigint wire_extern syscall_SIGINT
      "init_loop\<lparr>signalCh := Some 3\<rparr>" session_handler 3 ?buf "[]" "[]"]
  from A ty nc have "handleRequests_from session_handler wire_extern
     (map (\<lambda>r. RecvReq (Some r)) [?sigint, ?sigterm]) init_loop []
     = Running (init_loop\<lparr>signalBuffer :=
         take 128 (signalBuffer init_loop @ decoded_signals wire_extern [?sigint, ?sigterm])\<rparr>) []"
    by blast
  then have a: "handleRequests_from session_handler wire_extern
     (map (\<lambda>r. RecvReq (Some r)) [?sigint, ?sigterm]) init_loop []
     = Running (init_loop\<lparr>signalBuffer := ?buf\<rparr>) []"
    by (simp only: dec) (simp add: init_loop_def)
  from B have b: "loop_step session_handler wire_extern (RecvSignalCh (Some 3))
     (init_loop\<lparr>signalBuffer := ?buf\<rparr>)
     = (init_loop\<lparr>signalBuffer := ?buf, signalCh := Some 3\<rparr>, [GoDrain (Some 3) ?buf])"
    by simp
  from A have d: "drain_task (Some 3) ?buf = [SignalSend 3 syscall_SIGINT, SignalSend 3 syscall_SIGTERM]"
    by simp
  from C ty(1) decode_INT have c: "loop_step session_handler wire_extern (RecvReq (Some ?sigint))
     (init_loop\<lparr>signalCh := Some 3\<rparr>) = (init_loop\<lparr>signalCh := Some 3\<rparr>, [SignalSend 3 syscall_SIGINT])"
    by simp
  from ty(1) decode_INT nc a b d c show ?thesis by blast
qed

section \<open>When the request loop returns\<close>

text \<open>
  Claim C5, on the code. Reading the closed request stream yields the nil request, which
  the loop skips with \<open>continue\<close>: after any number of such reads the loop has not
  returned, and nothing has changed. Only the \<open>ctx.Done()\<close> case returns.
\<close>

theorem closed_request_stream_never_returns:
  "handleRequests_from h X (replicate n (RecvReq None)) st out = Running st out"
  by (induction n) (simp_all add: loop_step_def is_Panic_def)

lemma returned_only_on_CtxDone:
  "has_returned (handleRequests_from h X cs st out) \<Longrightarrow> CtxDone \<in> set cs"
proof (induction cs arbitrary: st out)
  case Nil
  then show ?case by (simp add: has_returned_def)
next
  case (Cons c cs)
  then show ?case
    by (cases "c = CtxDone") (auto simp: has_returned_def split: prod.splits if_splits)
qed

section \<open>Exit\<close>

lemma be_arith:
  fixes x :: nat
  assumes "x < 4294967296"
  shows "((x div 16777216 mod 256 * 256 + x div 65536 mod 256) * 256 + x div 256 mod 256) * 256
           + x mod 256 = x"
proof -
  define a where "a = x div 256"
  define b where "b = a div 256"
  define c where "c = b div 256"
  have b': "x div 65536 = b" unfolding b_def a_def by (simp add: div_mult2_eq[symmetric])
  have c': "x div 16777216 = c" unfolding c_def b_def a_def by (simp add: div_mult2_eq[symmetric])
  have "c < 256" unfolding c'[symmetric] using assms by (simp add: less_mult_imp_div_less)
  then have c1: "c mod 256 = c" by simp
  have "c * 256 + b mod 256 = b" unfolding c_def by (rule div_mult_mod_eq)
  moreover have "b * 256 + a mod 256 = a" unfolding b_def by (rule div_mult_mod_eq)
  moreover have "a * 256 + x mod 256 = x" unfolding a_def by (rule div_mult_mod_eq)
  ultimately show ?thesis unfolding b' c' c1 a_def[symmetric] by simp
qed

lemma unat_drop_bit_div: "unat (drop_bit n (w::32 word)) = unat w div 2 ^ n"
  by (subst unat_drop_bit_eq) (rule drop_bit_eq_div)

lemma unat_32_bound: "unat (w :: 32 word) < 4294967296"
  using unsigned_less[of w, where 'a=nat] by simp

text \<open>The four bytes are the value, most significant byte first.\<close>

lemma be_uint32_Marshal: "be_uint32 (Marshal_uint32 w) = unat w"
proof -
  have "be_uint32 (Marshal_uint32 w) =
      ((unat w div 16777216 mod 256 * 256 + unat w div 65536 mod 256) * 256
         + unat w div 256 mod 256) * 256 + unat w mod 256"
    by (simp add: Marshal_uint32_def be_uint32_def unat_drop_bit_div)
  also have "\<dots> = unat w" by (rule be_arith[OF unat_32_bound])
  finally show ?thesis .
qed

text \<open>
  What \<open>Exit\<close> does: a call that finds the flag set returns an error and nothing else
  happens; a first call always sets the flag and sends exactly one \<open>exit-status\<close>
  request, which carries the low 32 bits of the code; after a failed send it returns the
  send's error without closing anything; after a send that succeeded, with an open window
  channel, it closes the window channel, the channel and the connection.
\<close>

lemma Exit_again:
  "exited s \<noteq> 0 \<Longrightarrow> Exit e code s = (ExitError (Errorf ''exit called more than once''), s, [])"
  by (simp add: Exit_def)

lemma Exit_first_call:
  "exited s = 0 \<Longrightarrow>
   exited (fst (snd (Exit e code s))) = 1 \<and>
   filter is_exit_status (snd (snd (Exit e code s)))
     = [SendRequest ''exit-status'' False (Marshal_uint32 (ucast code))] \<and>
   length (Marshal_uint32 (ucast code)) = 4 \<and>
   be_uint32 (Marshal_uint32 (ucast code)) = unat code mod 2 ^ 32"
proof -
  assume x: "exited s = 0"
  have len: "length (Marshal_uint32 (ucast code)) = 4"
    by (simp add: Marshal_uint32_def)
  have val: "be_uint32 (Marshal_uint32 (ucast code)) = unat code mod 2 ^ 32"
    by (simp add: be_uint32_Marshal unsigned_ucast_eq take_bit_eq_mod)
  from x have "exited (fst (snd (Exit e code s))) = 1 \<and>
      filter is_exit_status (snd (snd (Exit e code s)))
        = [SendRequest ''exit-status'' False (Marshal_uint32 (ucast code))]"
    by (simp add: Exit_def Let_def is_exit_status_def split: option.split)
  with len val show ?thesis by blast
qed

lemma Exit_first_sent:
  "exited s = 0 \<Longrightarrow> winch s = Some w \<Longrightarrow> \<not> closed w \<Longrightarrow>
   Exit None code s =
     (ExitNil, s\<lparr>exited := 1, winch := Some (w\<lparr>closed := True\<rparr>)\<rparr>,
      [SendRequest ''exit-status'' False (Marshal_uint32 (ucast code)),
       CloseWinch, ChannelClose, ConnClose])"
  by (simp add: Exit_def)

lemma Exit_first_failed:
  "exited s = 0 \<Longrightarrow>
   Exit (Some err) code s =
     (ExitError err, s\<lparr>exited := 1\<rparr>,
      [SendRequest ''exit-status'' False (Marshal_uint32 (ucast code))])"
  by (simp add: Exit_def)

text \<open>
  Claim C2, on the code. The claim has the first call of \<open>Exit\<close> close the window
  channel, the channel and the connection. A session for which no PTY request was
  accepted has no window channel: \<open>s.winch\<close> is nil. An \<open>exec\<close> request on a new
  session, with a handler that returns 0, starts \<open>Exit 0\<close> on such a session; that
  first call sets the flag and sends the exit status, and then \<open>close\<close> of the nil
  channel panics: neither the channel nor the connection is closed.
\<close>

theorem exit_without_pty_panics:
  "loop_step session_handler wire_extern
      (RecvReq (Some (request ''exec'' (wire_string ''ls -l'')))) init_loop
     = (init_loop\<lparr>sess := new_session\<lparr>handled := 1, cmd := [''ls'', ''-l'']\<rparr>\<rparr>,
        [Reply True, CallHandler, GoExit 0]) \<and>
   winch (new_session\<lparr>handled := 1, cmd := [''ls'', ''-l'']\<rparr>) = None \<and>
   exited (new_session\<lparr>handled := 1, cmd := [''ls'', ''-l'']\<rparr>) = 0 \<and>
   Exit None 0 (new_session\<lparr>handled := 1, cmd := [''ls'', ''-l'']\<rparr>)
     = (ExitPanic, new_session\<lparr>handled := 1, cmd := [''ls'', ''-l''], exited := 1\<rparr>,
        [SendRequest ''exit-status'' False [CHR 0x00, CHR 0x00, CHR 0x00, CHR 0x00],
         Panic ''close of nil channel''])"
proof -
  have step: "loop_step session_handler wire_extern
      (RecvReq (Some (request ''exec'' (wire_string ''ls -l'')))) init_loop
     = (init_loop\<lparr>sess := new_session\<lparr>handled := 1, cmd := [''ls'', ''-l'']\<rparr>\<rparr>,
        [Reply True, CallHandler, GoExit 0])"
    by (simp add: loop_step_def serve_request_def handle_def request_def session_handler_def
        returns_0_def init_loop_def new_session_def wire_extern_def wire_string_def
        Marshal_uint32_def be_uint32_def)
  have ex: "Exit None 0 (new_session\<lparr>handled := 1, cmd := [''ls'', ''-l'']\<rparr>)
     = (ExitPanic, new_session\<lparr>handled := 1, cmd := [''ls'', ''-l''], exited := 1\<rparr>,
        [SendRequest ''exit-status'' False [CHR 0x00, CHR 0x00, CHR 0x00, CHR 0x00],
         Panic ''close of nil channel''])"
    by (simp add: Exit_def new_session_def Marshal_uint32_def char_of_def)
  have "winch (new_session\<lparr>handled := 1, cmd := [''ls'', ''-l'']\<rparr>) = None"
    and "exited (new_session\<lparr>handled := 1, cmd := [''ls'', ''-l'']\<rparr>) = 0"
    by (simp_all add: new_session_def)
  with step ex show ?thesis by blast
qed

text \<open>
  The other way in which a first call ends without closing: the channel refuses the
  request, and \<open>Exit\<close> returns that error at once.
\<close>

lemma Exit_send_failure_closes_nothing:
  "exited pty_session = 0 \<and>
   Exit (Some (Errorf ''EOF'')) 0 pty_session =
     (ExitError (Errorf ''EOF''), pty_session\<lparr>exited := 1\<rparr>,
      [SendRequest ''exit-status'' False [CHR 0x00, CHR 0x00, CHR 0x00, CHR 0x00]])"
  by (simp add: Exit_def pty_session_def new_session_def Marshal_uint32_def char_of_def)


section \<open>The acceptor's registry and admission\<close>

lemma map_get_add_same:
  "map_get (map_bump m k d) k = (fst (map_get m k) + d, True)"
  by (simp add: map_get_def map_bump_def update_conv' split: option.split)

lemma map_get_add_other:
  "k' \<noteq> k \<Longrightarrow> map_get (map_bump m k d) k' = map_get m k'"
  by (simp add: map_get_def map_bump_def update_conv')

lemma admit_refused_global:
  assumes "MaxConnections cfg > 0" and "openConnections st \<ge> MaxConnections cfg"
  shows "admit cfg c st =
           (st\<lparr>deadline := initialDeadline\<rparr>,
            [TCPClose c, HandleEvent (ConnectionClosedEvent (LocalAddr c) (RemoteAddr c))])"
  using assms by (simp add: admit_def)

lemma admit_refused_client:
  assumes "\<not> (MaxConnections cfg > 0 \<and> openConnections st \<ge> MaxConnections cfg)"
    and "MaxClientConnections cfg > 0"
    and "map_of (clientConnections st) (IP (RemoteAddr c)) = Some v"
    and "v \<ge> MaxClientConnections cfg"
  shows "admit cfg c st =
           (st\<lparr>deadline := initialDeadline\<rparr>,
            [TCPClose c, HandleEvent (ConnectionClosedEvent (LocalAddr c) (RemoteAddr c))])"
  using assms by (auto simp: admit_def map_get_def)

lemma admit_admitted:
  assumes "\<not> (MaxConnections cfg > 0 \<and> openConnections st \<ge> MaxConnections cfg)"
    and "\<not> (MaxClientConnections cfg > 0 \<and>
            (\<exists>v. map_of (clientConnections st) (IP (RemoteAddr c)) = Some v \<and>
                 v \<ge> MaxClientConnections cfg))"
  shows "admit cfg c st =
     (st\<lparr>deadline := initialDeadline, wg := wg st + 1,
         openConnections := openConnections st + 1,
         clientConnections := map_bump (clientConnections st) (IP (RemoteAddr c)) 1,
         tasks := tasks st @ [c]\<rparr>,
      [WaitGroupAdd] @
      (if openConnections st + 1 = MaxConnections cfg then [HandleEvent MaxConnectionsEvent] else []) @
      (if fst (map_get (clientConnections st) (IP (RemoteAddr c))) + 1 = MaxClientConnections cfg
       then [HandleEvent (MaxClientConnectionsEvent (LocalAddr c) (RemoteAddr c))] else []) @
      (if MaxConnectionDuration cfg > 0 then [TCPSetDeadline c (MaxConnectionDuration cfg)] else []) @
      [HandleEvent (ConnectionOpenedEvent (LocalAddr c) (RemoteAddr c)), GoHandleTCPConn c])"
proof -
  have "\<not> (MaxClientConnections cfg > 0 \<and>
          (case map_get (clientConnections st) (IP (RemoteAddr c)) of
             (val, ok) \<Rightarrow> ok \<and> val \<ge> MaxClientConnections cfg))"
    using assms(2) by (auto simp: map_get_def split: option.splits)
  with assms(1) show ?thesis
    by (simp add: admit_def Let_def map_get_add_same)
qed


lemma sum_update:
  "distinct (map fst m) \<Longrightarrow>
   sum_list (map snd (AList.update k v m)) =
     sum_list (map snd m) - (case map_of m k of None \<Rightarrow> 0 | Some x \<Rightarrow> x) + (v::int)"
proof (induction m)
  case Nil
  then show ?case by simp
next
  case (Cons a m)
  obtain k' x where a: "a = (k', x)" by (cases a)
  show ?case
  proof (cases "k' = k")
    case True
    with a Cons.prems show ?thesis by simp
  next
    case False
    with a Cons show ?thesis by simp
  qed
qed

lemma sum_map_add:
  "distinct (map fst m) \<Longrightarrow> sum_list (map snd (map_bump m k d)) = sum_list (map snd m) + d"
  by (simp add: map_bump_def sum_update map_get_def split: option.split)

lemma distinct_map_add: "distinct (map fst m) \<Longrightarrow> distinct (map fst (map_bump m k d))"
  by (simp add: map_bump_def distinct_update)

lemma from_ip_append: "from_ip ip (cs @ [c]) = from_ip ip cs @ (if IP (RemoteAddr c) = ip then [c] else [])"
  by (simp add: from_ip_def)

lemma length_filter_remove1:
  "c \<in> set cs \<Longrightarrow>
   length (filter P cs) = length (filter P (remove1 c cs)) + (if P c then 1 else 0)"
  by (induction cs) auto

lemma from_ip_remove1:
  "c \<in> set cs \<Longrightarrow>
   int (length (from_ip ip (remove1 c cs))) =
     int (length (from_ip ip cs)) - (if IP (RemoteAddr c) = ip then 1 else 0)"
  using length_filter_remove1[of c cs "\<lambda>c. IP (RemoteAddr c) = ip"]
  by (simp add: from_ip_def)

lemma length_remove1_int:
  "c \<in> set cs \<Longrightarrow> int (length (remove1 c cs)) = int (length cs) - 1"
  using length_filter_remove1[of c cs "\<lambda>c. True"] by simp

lemma tracked_init: "tracked init_listen"
  by (simp add: tracked_def init_listen_def map_get_def from_ip_def)

lemma tracked_deadline: "tracked (st\<lparr>deadline := d\<rparr>) = tracked st"
  by (simp add: tracked_def)

lemma tracked_cancel: "tracked (st\<lparr>ctx_cancelled := b\<rparr>) = tracked st"
  by (simp add: tracked_def)

lemma tracked_admitted:
  assumes "tracked st"
  shows "tracked (st\<lparr>deadline := initialDeadline, wg := wg st + 1,
         openConnections := openConnections st + 1,
         clientConnections := map_bump (clientConnections st) (IP (RemoteAddr c)) 1,
         tasks := tasks st @ [c]\<rparr>)"
proof -
  from assms have d: "distinct (map fst (clientConnections st))" by (simp add: tracked_def)
  have per: "fst (map_get (map_bump (clientConnections st) (IP (RemoteAddr c)) 1) ip)
               = int (length (from_ip ip (tasks st @ [c])))" for ip
  proof (cases "ip = IP (RemoteAddr c)")
    case True
    with assms show ?thesis by (simp add: map_get_add_same from_ip_append tracked_def)
  next
    case False
    with assms show ?thesis by (simp add: map_get_add_other from_ip_append tracked_def)
  qed
  from assms d per show ?thesis
    by (simp add: tracked_def sum_map_add distinct_map_add)
qed

lemma tracked_closed:
  assumes t: "tracked st" and m: "c \<in> set (tasks st)"
  shows "close_notification cfg c st =
           (st\<lparr>wg := wg st - 1, deadline := initialDeadline,
               openConnections := openConnections st - 1,
               clientConnections := map_bump (clientConnections st) (IP (RemoteAddr c)) (- 1),
               tasks := remove1 c (tasks st)\<rparr>,
            [HandleEvent (ConnectionClosedEvent (LocalAddr c) (RemoteAddr c))])
         \<and> tracked (fst (close_notification cfg c st))"
proof -
  let ?ip = "IP (RemoteAddr c)"
  from m have pos: "0 < length (tasks st)" by (cases "tasks st") auto
  with t have w: "\<not> wg st - 1 < 0" by (simp add: tracked_def)
  from m have "0 < length (from_ip ?ip (tasks st))"
    by (auto simp: from_ip_def filter_empty_conv)
  with t have "0 < fst (map_get (clientConnections st) ?ip)" by (simp add: tracked_def)
  then have present: "snd (map_get (clientConnections st) ?ip)"
    by (simp add: map_get_def split: option.splits)
  from w present have eq: "close_notification cfg c st =
           (st\<lparr>wg := wg st - 1, deadline := initialDeadline,
               openConnections := openConnections st - 1,
               clientConnections := map_bump (clientConnections st) ?ip (- 1),
               tasks := remove1 c (tasks st)\<rparr>,
            [HandleEvent (ConnectionClosedEvent (LocalAddr c) (RemoteAddr c))])"
    by (simp add: close_notification_def Let_def)
  from t have d: "distinct (map fst (clientConnections st))" by (simp add: tracked_def)
  have per: "fst (map_get (map_bump (clientConnections st) ?ip (- 1)) ip)
               = int (length (from_ip ip (remove1 c (tasks st))))" for ip
  proof (cases "ip = ?ip")
    case True
    with t from_ip_remove1[OF m, of ip] show ?thesis
      by (simp add: map_get_add_same tracked_def)
  next
    case False
    with t from_ip_remove1[OF m, of ip] show ?thesis
      by (simp add: map_get_add_other tracked_def)
  qed
  have len: "int (length (remove1 c (tasks st))) = int (length (tasks st)) - 1"
    by (rule length_remove1_int[OF m])
  from t d per len have "tracked (st\<lparr>wg := wg st - 1, deadline := initialDeadline,
               openConnections := openConnections st - 1,
               clientConnections := map_bump (clientConnections st) ?ip (- 1),
               tasks := remove1 c (tasks st)\<rparr>)"
    by (simp add: tracked_def sum_map_add distinct_map_add)
  with eq show ?thesis by simp
qed


lemma admit_tracked:
  assumes "tracked st"
  shows "tracked (fst (admit cfg c st)) \<and> WaitGroupPanic \<notin> set (snd (admit cfg c st))"
proof (cases "MaxConnections cfg > 0 \<and> openConnections st \<ge> MaxConnections cfg")
  case True
  with assms show ?thesis by (simp add: admit_refused_global tracked_deadline)
next
  case g: False
  show ?thesis
  proof (cases "MaxClientConnections cfg > 0 \<and>
            (\<exists>v. map_of (clientConnections st) (IP (RemoteAddr c)) = Some v \<and>
                 v \<ge> MaxClientConnections cfg)")
    case True
    then obtain v where "MaxClientConnections cfg > 0"
      "map_of (clientConnections st) (IP (RemoteAddr c)) = Some v" "v \<ge> MaxClientConnections cfg"
      by blast
    from admit_refused_client[OF g this] assms show ?thesis by (simp add: tracked_deadline)
  next
    case False
    from admit_admitted[OF g False] tracked_admitted[OF assms, of c] show ?thesis by simp
  qed
qed

lemma listen_step_tracked:
  assumes "tracked st" and "enabled cfg c st"
  shows "tracked (fst (listen_step cfg c st)) \<and>
         WaitGroupPanic \<notin> set (snd (listen_step cfg c st))"
proof (cases c)
  case (SelClose conn)
  with assms(2) have "conn \<in> set (tasks st)" by (simp add: enabled_def)
  note tc = tracked_closed[OF assms(1) this, of cfg]
  from tc[THEN conjunct2] have "tracked (fst (close_notification cfg conn st))" .
  moreover from tc[THEN conjunct1]
  have "WaitGroupPanic \<notin> set (snd (close_notification cfg conn st))" by simp
  ultimately show ?thesis using SelClose by (simp add: listen_step_def)
next
  case (AcceptOk conn)
  with admit_tracked[OF assms(1), of cfg conn] show ?thesis by (simp add: listen_step_def)
qed (use assms in \<open>simp_all add: listen_step_def tracked_deadline tracked_cancel\<close>)

lemma listen_from_tracked:
  "tracked st \<Longrightarrow>
   (case listen_from cfg cs st out of
      Serving st' out' \<Rightarrow> tracked st'
    | Stopped st' out' \<Rightarrow> tracked st'
    | Crashed st' out' \<Rightarrow> False
    | Impossible \<Rightarrow> True)"
proof (induction cs arbitrary: st out)
  case Nil
  then show ?case by simp
next
  case (Cons c cs)
  let ?st1 = "fst (iteration_head cfg st)"
  let ?e1 = "snd (iteration_head cfg st)"
  have t1: "tracked ?st1" using Cons.prems by (simp add: iteration_head_def Let_def tracked_deadline)
  show ?case
  proof (cases "enabled cfg c ?st1")
    case False
    then show ?thesis by (simp add: case_prod_unfold)
  next
    case en: True
    show ?thesis
    proof (cases "c = SelCtxDone")
      case True
      with en t1 show ?thesis by (simp add: case_prod_unfold)
    next
      case False
      from listen_step_tracked[OF t1 en]
      have t2: "tracked (fst (listen_step cfg c ?st1))"
        and np: "WaitGroupPanic \<notin> set (snd (listen_step cfg c ?st1))" by auto
      from Cons.IH[OF t2, of "out @ ?e1 @ snd (listen_step cfg c ?st1)"] en False np
      show ?thesis by (simp add: case_prod_unfold)
    qed
  qed
qed

lemma tracked_registry_ok: "tracked st \<Longrightarrow> registry_ok st"
proof -
  assume t: "tracked st"
  have "0 \<le> n" if "(ip, n) \<in> set (clientConnections st)" for ip n
  proof -
    from t that have "map_of (clientConnections st) ip = Some n" by (simp add: tracked_def)
    then have "fst (map_get (clientConnections st) ip) = n" by (simp add: map_get_def)
    with t show ?thesis by (simp add: tracked_def)
  qed
  then have "list_all (\<lambda>(ip, n). 0 \<le> n) (clientConnections st)"
    by (auto simp: list_all_iff)
  with t show ?thesis by (simp add: registry_ok_def tracked_def)
qed


lemma close_counts:
  assumes "0 < wg st"
  shows "openConnections (fst (close_notification cfg c st)) = openConnections st - 1 \<and>
         clientConnections (fst (close_notification cfg c st)) =
           (if map_of (clientConnections st) (IP (RemoteAddr c)) = None
            then clientConnections st
            else map_bump (clientConnections st) (IP (RemoteAddr c)) (- 1))"
  using assms by (simp add: close_notification_def Let_def map_get_def split: option.split)

text \<open>
  Claim C3. Whatever the successive \<open>select\<close>s of the accept loop find (with close
  notifications only from connection tasks that are running), the loop does not crash,
  and whenever it is at the top of an iteration, or has left the loop, the total of open
  connections equals the sum of the per-IP counts and neither the total nor any per-IP
  count is negative. A close notification decrements the total, and the per-IP entry when
  there is one. The counters are local variables of \<open>listen\<close>: only its own steps
  change them.
\<close>

theorem registry_invariant:
  "(listen_from cfg cs init_listen [] \<noteq> Impossible \<longrightarrow>
      (\<exists>st. final_state (listen_from cfg cs init_listen []) = Some st \<and> registry_ok st))
   \<and> (0 < wg st \<longrightarrow>
        openConnections (fst (close_notification cfg c st)) = openConnections st - 1 \<and>
        clientConnections (fst (close_notification cfg c st)) =
          (if map_of (clientConnections st) (IP (RemoteAddr c)) = None
           then clientConnections st
           else map_bump (clientConnections st) (IP (RemoteAddr c)) (- 1)))"
proof -
  have "\<exists>st. final_state (listen_from cfg cs init_listen []) = Some st \<and> registry_ok st"
    if "listen_from cfg cs init_listen [] \<noteq> Impossible"
  proof (cases "listen_from cfg cs init_listen []")
    case (Serving st' out')
    with listen_from_tracked[OF tracked_init, of cfg cs "[]"] show ?thesis
      by (simp add: final_state_def tracked_registry_ok)
  next
    case (Stopped st' out')
    with listen_from_tracked[OF tracked_init, of cfg cs "[]"] show ?thesis
      by (simp add: final_state_def tracked_registry_ok)
  next
    case (Crashed st' out')
    with listen_from_tracked[OF tracked_init, of cfg cs "[]"] show ?thesis by simp
  next
    case Impossible
    with that show ?thesis by simp
  qed
  with close_counts[of st cfg c] show ?thesis by blast
qed

lemma acceptor_run:
  "final_state (listen_from (limits 2 2)
      [AcceptOk (conn_from ''10.0.0.7'' 40001), AcceptTimeout,
       AcceptOk (conn_from ''10.0.0.8'' 40002), AcceptOk (conn_from ''10.0.0.7'' 40003),
       SelClose (conn_from ''10.0.0.7'' 40001), AcceptOk (conn_from ''10.0.0.7'' 40003)]
      init_listen [])
   = Some two_open"
  by (simp add: final_state_def iteration_head_def enabled_def listen_step_def admit_def
      close_notification_def map_get_def map_bump_def limits_def conn_from_def init_listen_def
      Let_def initialDeadline_def Millisecond_def Second_def two_open_def)

theorem registry_invariant_witness:
  "listen_from (limits 2 2)
      [AcceptOk (conn_from ''10.0.0.7'' 40001), AcceptTimeout,
       AcceptOk (conn_from ''10.0.0.8'' 40002), AcceptOk (conn_from ''10.0.0.7'' 40003),
       SelClose (conn_from ''10.0.0.7'' 40001), AcceptOk (conn_from ''10.0.0.7'' 40003)]
      init_listen [] \<noteq> Impossible \<and>
   registry_ok two_open \<and>
   openConnections (fst (close_notification (limits 2 2) (conn_from ''10.0.0.8'' 40002)
       two_open)) = 1 \<and>
   clientConnections (fst (close_notification (limits 2 2) (conn_from ''10.0.0.8'' 40002)
       two_open))
     = [(''10.0.0.7'', 1), (''10.0.0.8'', 0)]"
proof -
  let ?run = "[AcceptOk (conn_from ''10.0.0.7'' 40001), AcceptTimeout,
       AcceptOk (conn_from ''10.0.0.8'' 40002), AcceptOk (conn_from ''10.0.0.7'' 40003),
       SelClose (conn_from ''10.0.0.7'' 40001), AcceptOk (conn_from ''10.0.0.7'' 40003)]"
  let ?S = two_open
  note T = registry_invariant [of "limits 2 2" ?run ?S "conn_from ''10.0.0.8'' 40002"]
  have ne: "listen_from (limits 2 2) ?run init_listen [] \<noteq> Impossible"
    using acceptor_run by (auto simp: final_state_def)
  with T obtain st where "final_state (listen_from (limits 2 2) ?run init_listen []) = Some st"
    and "registry_ok st" by blast
  with acceptor_run have ok: "registry_ok ?S" by simp
  have w: "0 < wg ?S" by (simp add: two_open_def)
  with T have "openConnections (fst (close_notification (limits 2 2) (conn_from ''10.0.0.8'' 40002) ?S))
      = openConnections ?S - 1"
    and "clientConnections (fst (close_notification (limits 2 2) (conn_from ''10.0.0.8'' 40002) ?S)) =
          (if map_of (clientConnections ?S) (IP (RemoteAddr (conn_from ''10.0.0.8'' 40002))) = None
           then clientConnections ?S
           else map_bump (clientConnections ?S) (IP (RemoteAddr (conn_from ''10.0.0.8'' 40002))) (- 1))"
    by blast+
  then have c: "openConnections (fst (close_notification (limits 2 2) (conn_from ''10.0.0.8'' 40002) ?S)) = 1"
    "clientConnections (fst (close_notification (limits 2 2) (conn_from ''10.0.0.8'' 40002) ?S))
       = [(''10.0.0.7'', 1), (''10.0.0.8'', 0)]"
    by (simp_all add: conn_from_def map_bump_def map_get_def two_open_def)
  from ne ok c show ?thesis by blast
qed

text \<open>
  Claim C4. On an accepted connection: if the global limit is set and reached, or else
  if the per-IP limit is set and this IP's entry has reached it, the connection is closed
  and \<open>ConnectionClosed\<close> is emitted, and that is all: no counter moves, no
  \<open>ConnectionOpened\<close>, no limit event. The global check comes first, so a full server
  refuses whatever the per-IP count. Otherwise the wait group, the total and the IP's
  entry each go up by one, other entries stay, \<open>MaxConnectionsEvent\<close> is emitted
  exactly when the new total equals \<open>MaxConnections\<close>, \<open>MaxClientConnectionsEvent\<close>
  exactly when the new entry equals \<open>MaxClientConnections\<close>, then
  \<open>ConnectionOpened\<close> is emitted and the connection task is started.
\<close>

theorem admission:
  "((MaxConnections cfg > 0 \<and> openConnections st \<ge> MaxConnections cfg) \<or>
    (MaxClientConnections cfg > 0 \<and>
       (\<exists>v. map_of (clientConnections st) (IP (RemoteAddr c)) = Some v \<and>
            v \<ge> MaxClientConnections cfg)) \<longrightarrow>
      admit cfg c st =
        (st\<lparr>deadline := initialDeadline\<rparr>,
         [TCPClose c, HandleEvent (ConnectionClosedEvent (LocalAddr c) (RemoteAddr c))]))
   \<and> (\<not> (MaxConnections cfg > 0 \<and> openConnections st \<ge> MaxConnections cfg) \<and>
       \<not> (MaxClientConnections cfg > 0 \<and>
            (\<exists>v. map_of (clientConnections st) (IP (RemoteAddr c)) = Some v \<and>
                 v \<ge> MaxClientConnections cfg)) \<longrightarrow>
        wg (fst (admit cfg c st)) = wg st + 1 \<and>
        openConnections (fst (admit cfg c st)) = openConnections st + 1 \<and>
        map_get (clientConnections (fst (admit cfg c st))) (IP (RemoteAddr c))
          = (fst (map_get (clientConnections st) (IP (RemoteAddr c))) + 1, True) \<and>
        (\<forall>ip. ip \<noteq> IP (RemoteAddr c) \<longrightarrow>
           map_get (clientConnections (fst (admit cfg c st))) ip
             = map_get (clientConnections st) ip) \<and>
        hd (snd (admit cfg c st)) = WaitGroupAdd \<and>
        (HandleEvent MaxConnectionsEvent \<in> set (snd (admit cfg c st)) \<longleftrightarrow>
           openConnections (fst (admit cfg c st)) = MaxConnections cfg) \<and>
        (HandleEvent (MaxClientConnectionsEvent (LocalAddr c) (RemoteAddr c))
             \<in> set (snd (admit cfg c st)) \<longleftrightarrow>
           fst (map_get (clientConnections (fst (admit cfg c st))) (IP (RemoteAddr c)))
             = MaxClientConnections cfg) \<and>
        HandleEvent (ConnectionOpenedEvent (LocalAddr c) (RemoteAddr c))
          \<in> set (snd (admit cfg c st)) \<and>
        last (snd (admit cfg c st)) = GoHandleTCPConn c \<and>
        TCPClose c \<notin> set (snd (admit cfg c st)) \<and>
        HandleEvent (ConnectionClosedEvent (LocalAddr c) (RemoteAddr c))
          \<notin> set (snd (admit cfg c st)))"
proof -
  let ?G = "MaxConnections cfg > 0 \<and> openConnections st \<ge> MaxConnections cfg"
  let ?P = "MaxClientConnections cfg > 0 \<and>
       (\<exists>v. map_of (clientConnections st) (IP (RemoteAddr c)) = Some v \<and>
            v \<ge> MaxClientConnections cfg)"
  let ?refused = "(st\<lparr>deadline := initialDeadline\<rparr>,
         [TCPClose c, HandleEvent (ConnectionClosedEvent (LocalAddr c) (RemoteAddr c))])"
  have r: "admit cfg c st = ?refused" if "?G \<or> ?P"
  proof (cases ?G)
    case True
    then show ?thesis using admit_refused_global[of cfg st c] by simp
  next
    case False
    with that obtain v where "MaxClientConnections cfg > 0"
      "map_of (clientConnections st) (IP (RemoteAddr c)) = Some v" "v \<ge> MaxClientConnections cfg"
      by blast
    from admit_refused_client[OF False this] show ?thesis .
  qed
  have a: "wg (fst (admit cfg c st)) = wg st + 1 \<and>
        openConnections (fst (admit cfg c st)) = openConnections st + 1 \<and>
        map_get (clientConnections (fst (admit cfg c st))) (IP (RemoteAddr c))
          = (fst (map_get (clientConnections st) (IP (RemoteAddr c))) + 1, True) \<and>
        (\<forall>ip. ip \<noteq> IP (RemoteAddr c) \<longrightarrow>
           map_get (clientConnections (fst (admit cfg c st))) ip
             = map_get (clientConnections st) ip) \<and>
        hd (snd (admit cfg c st)) = WaitGroupAdd \<and>
        (HandleEvent MaxConnectionsEvent \<in> set (snd (admit cfg c st)) \<longleftrightarrow>
           openConnections (fst (admit cfg c st)) = MaxConnections cfg) \<and>
        (HandleEvent (MaxClientConnectionsEvent (LocalAddr c) (RemoteAddr c))
             \<in> set (snd (admit cfg c st)) \<longleftrightarrow>
           fst (map_get (clientConnections (fst (admit cfg c st))) (IP (RemoteAddr c)))
             = MaxClientConnections cfg) \<and>
        HandleEvent (ConnectionOpenedEvent (LocalAddr c) (RemoteAddr c))
          \<in> set (snd (admit cfg c st)) \<and>
        last (snd (admit cfg c st)) = GoHandleTCPConn c \<and>
        TCPClose c \<notin> set (snd (admit cfg c st)) \<and>
        HandleEvent (ConnectionClosedEvent (LocalAddr c) (RemoteAddr c))
          \<notin> set (snd (admit cfg c st))" if "\<not> ?G" "\<not> ?P"
    unfolding admit_admitted[OF that]
    by (simp add: map_get_add_same map_get_add_other)
  from r a show ?thesis by blast
qed


theorem admission_witness:
  "MaxConnections (limits 2 2) > 0 \<and>
   openConnections two_open \<ge> MaxConnections (limits 2 2) \<and>
   admit (limits 2 2) (conn_from ''10.0.0.9'' 40004) two_open =
     (two_open\<lparr>deadline := initialDeadline\<rparr>,
      [TCPClose (conn_from ''10.0.0.9'' 40004),
       HandleEvent (ConnectionClosedEvent (LocalAddr (conn_from ''10.0.0.9'' 40004))
                                          (RemoteAddr (conn_from ''10.0.0.9'' 40004)))]) \<and>
   \<not> (MaxConnections (limits 5 1) > 0 \<and> openConnections two_open \<ge> MaxConnections (limits 5 1)) \<and>
   MaxClientConnections (limits 5 1) > 0 \<and>
   map_of (clientConnections two_open) (IP (RemoteAddr (conn_from ''10.0.0.7'' 40005))) = Some 1 \<and>
   admit (limits 5 1) (conn_from ''10.0.0.7'' 40005) two_open =
     (two_open\<lparr>deadline := initialDeadline\<rparr>,
      [TCPClose (conn_from ''10.0.0.7'' 40005),
       HandleEvent (ConnectionClosedEvent (LocalAddr (conn_from ''10.0.0.7'' 40005))
                                          (RemoteAddr (conn_from ''10.0.0.7'' 40005)))]) \<and>
   openConnections (fst (admit (limits 3 2) (conn_from ''10.0.0.7'' 40005) two_open)) = 3 \<and>
   wg (fst (admit (limits 3 2) (conn_from ''10.0.0.7'' 40005) two_open)) = 3 \<and>
   map_get (clientConnections (fst (admit (limits 3 2) (conn_from ''10.0.0.7'' 40005) two_open)))
     ''10.0.0.7'' = (2, True) \<and>
   HandleEvent MaxConnectionsEvent
     \<in> set (snd (admit (limits 3 2) (conn_from ''10.0.0.7'' 40005) two_open)) \<and>
   HandleEvent (MaxClientConnectionsEvent (LocalAddr (conn_from ''10.0.0.7'' 40005))
                                          (RemoteAddr (conn_from ''10.0.0.7'' 40005)))
     \<in> set (snd (admit (limits 3 2) (conn_from ''10.0.0.7'' 40005) two_open)) \<and>
   HandleEvent MaxConnectionsEvent
     \<notin> set (snd (admit (limits 4 0) (conn_from ''10.0.0.7'' 40005) two_open))"
proof -
  let ?c9 = "conn_from ''10.0.0.9'' 40004"
  let ?c7 = "conn_from ''10.0.0.7'' 40005"
  have g: "MaxConnections (limits 2 2) > 0" "openConnections two_open \<ge> MaxConnections (limits 2 2)"
    by (simp_all add: limits_def two_open_def)
  have ng: "\<not> (MaxConnections (limits 5 1) > 0 \<and> openConnections two_open \<ge> MaxConnections (limits 5 1))"
    by (simp add: limits_def two_open_def)
  have p: "MaxClientConnections (limits 5 1) > 0"
    "map_of (clientConnections two_open) (IP (RemoteAddr ?c7)) = Some 1"
    "(1::int) \<ge> MaxClientConnections (limits 5 1)"
    by (simp_all add: limits_def two_open_def conn_from_def)
  have n3: "\<not> (MaxConnections (limits 3 2) > 0 \<and> openConnections two_open \<ge> MaxConnections (limits 3 2))"
    "\<not> (MaxClientConnections (limits 3 2) > 0 \<and>
        (\<exists>v. map_of (clientConnections two_open) (IP (RemoteAddr ?c7)) = Some v \<and>
             v \<ge> MaxClientConnections (limits 3 2)))"
    by (simp_all add: limits_def two_open_def conn_from_def)
  have n4: "\<not> (MaxConnections (limits 4 0) > 0 \<and> openConnections two_open \<ge> MaxConnections (limits 4 0))"
    "\<not> (MaxClientConnections (limits 4 0) > 0 \<and>
        (\<exists>v. map_of (clientConnections two_open) (IP (RemoteAddr ?c7)) = Some v \<and>
             v \<ge> MaxClientConnections (limits 4 0)))"
    by (simp_all add: limits_def two_open_def conn_from_def)
  note A = admission [of "limits 2 2" two_open ?c9]
  note B = admission [of "limits 5 1" two_open ?c7]
  note C = admission [of "limits 3 2" two_open ?c7]
  note D = admission [of "limits 4 0" two_open ?c7]
  from A g have a: "admit (limits 2 2) ?c9 two_open =
     (two_open\<lparr>deadline := initialDeadline\<rparr>,
      [TCPClose ?c9, HandleEvent (ConnectionClosedEvent (LocalAddr ?c9) (RemoteAddr ?c9))])"
    by blast
  from B p have b: "admit (limits 5 1) ?c7 two_open =
     (two_open\<lparr>deadline := initialDeadline\<rparr>,
      [TCPClose ?c7, HandleEvent (ConnectionClosedEvent (LocalAddr ?c7) (RemoteAddr ?c7))])"
    by blast
  from C n3 have c: "wg (fst (admit (limits 3 2) ?c7 two_open)) = wg two_open + 1"
    "openConnections (fst (admit (limits 3 2) ?c7 two_open)) = openConnections two_open + 1"
    "map_get (clientConnections (fst (admit (limits 3 2) ?c7 two_open))) (IP (RemoteAddr ?c7))
          = (fst (map_get (clientConnections two_open) (IP (RemoteAddr ?c7))) + 1, True)"
    "HandleEvent MaxConnectionsEvent \<in> set (snd (admit (limits 3 2) ?c7 two_open)) \<longleftrightarrow>
           openConnections (fst (admit (limits 3 2) ?c7 two_open)) = MaxConnections (limits 3 2)"
    "HandleEvent (MaxClientConnectionsEvent (LocalAddr ?c7) (RemoteAddr ?c7))
             \<in> set (snd (admit (limits 3 2) ?c7 two_open)) \<longleftrightarrow>
           fst (map_get (clientConnections (fst (admit (limits 3 2) ?c7 two_open))) (IP (RemoteAddr ?c7)))
             = MaxClientConnections (limits 3 2)"
    by blast+
  from D n4 have d: "openConnections (fst (admit (limits 4 0) ?c7 two_open)) = openConnections two_open + 1"
    "HandleEvent MaxConnectionsEvent \<in> set (snd (admit (limits 4 0) ?c7 two_open)) \<longleftrightarrow>
           openConnections (fst (admit (limits 4 0) ?c7 two_open)) = MaxConnections (limits 4 0)"
    by blast+
  have ip: "IP (RemoteAddr ?c7) = ''10.0.0.7''" by (simp add: conn_from_def)
  have vals: "wg two_open = 2" "openConnections two_open = 2"
    "fst (map_get (clientConnections two_open) ''10.0.0.7'') = 1"
    "MaxConnections (limits 3 2) = 3" "MaxClientConnections (limits 3 2) = 2"
    "MaxConnections (limits 4 0) = 4"
    by (simp_all add: two_open_def limits_def map_get_def)
  from c d have e: "openConnections (fst (admit (limits 3 2) ?c7 two_open)) = 3"
    "wg (fst (admit (limits 3 2) ?c7 two_open)) = 3"
    "map_get (clientConnections (fst (admit (limits 3 2) ?c7 two_open))) ''10.0.0.7'' = (2, True)"
    "HandleEvent MaxConnectionsEvent \<in> set (snd (admit (limits 3 2) ?c7 two_open))"
    "HandleEvent (MaxClientConnectionsEvent (LocalAddr ?c7) (RemoteAddr ?c7))
             \<in> set (snd (admit (limits 3 2) ?c7 two_open))"
    "HandleEvent MaxConnectionsEvent \<notin> set (snd (admit (limits 4 0) ?c7 two_open))"
    by (simp_all add: ip vals)
  from g a ng p(1,2) b e show ?thesis by blast
qed


section \<open>The public-key callback wrapper\<close>

lemma perm_keys_distinct:
  "permKeyType \<noteq> permKeyData" "permKeyType \<noteq> permKeyFingerprint"
  "permKeyData \<noteq> permKeyFingerprint"
  by (simp_all add: permKeyType_def permKeyData_def permKeyFingerprint_def)

lemma wrapper_error:
  "f meta key = (perm, Some e) \<Longrightarrow> pubKeyCallbackWrapper L (Some f) meta key = (None, Some e)"
  by (simp add: pubKeyCallbackWrapper_def)

lemma wrapper_success:
  assumes "f meta key = (perm, None)"
  shows "pubKeyCallbackWrapper L (Some f) meta key =
     (Some \<lparr>CriticalOptions = (case perm of None \<Rightarrow> None | Some q \<Rightarrow> CriticalOptions q),
            Extensions = Some
              ((case perm of
                  None \<Rightarrow> Map.empty
                | Some q \<Rightarrow> (case Extensions q of None \<Rightarrow> Map.empty | Some m0 \<Rightarrow> m0))
               (permKeyType \<mapsto> key_Type key, permKeyData \<mapsto> key_Marshal key,
                permKeyFingerprint \<mapsto> FingerprintLegacyMD5 L key))\<rparr>, None)"
  using assms
  by (cases perm) (auto simp: pubKeyCallbackWrapper_def set_extension_def Let_def)

text \<open>
  Claim C8. The wrapped callback hands an error of the user's callback on unchanged,
  with nil permissions. When the user's callback succeeds, it returns non-nil permissions
  whose extensions are a map holding the key's type under \<open>pub-key-type\<close>, its
  marshaled bytes under \<open>pub-key-data\<close> and its legacy MD5 fingerprint under
  \<open>pub-key-fingerprint\<close>, the other entries and the critical options being those the
  user returned; nil permissions from the user become a fresh object with just these
  three entries. So \<open>PublicKey()\<close> of a session whose connection carries these
  permissions parses the marshaled bytes of the authenticating key; with a library whose
  parser gives back, for the marshaled bytes of a key, a key that marshals to the same
  bytes, it returns a key that marshals to the bytes of the authenticating key.
\<close>

theorem pubkey_wrapper:
  "(f meta key = (perm, Some e) \<longrightarrow>
      pubKeyCallbackWrapper L (Some f) meta key = (None, Some e))
   \<and> (f meta key = (perm, None) \<longrightarrow>
        (\<exists>p m. pubKeyCallbackWrapper L (Some f) meta key = (Some p, None) \<and>
               Extensions p = Some m \<and>
               m permKeyType = Some (key_Type key) \<and>
               m permKeyData = Some (key_Marshal key) \<and>
               m permKeyFingerprint = Some (FingerprintLegacyMD5 L key) \<and>
               CriticalOptions p = (case perm of None \<Rightarrow> None | Some q \<Rightarrow> CriticalOptions q) \<and>
               (\<forall>k. k \<noteq> permKeyType \<and> k \<noteq> permKeyData \<and> k \<noteq> permKeyFingerprint \<longrightarrow>
                    m k = (case perm of
                             None \<Rightarrow> None
                           | Some q \<Rightarrow> (case Extensions q of None \<Rightarrow> None | Some m0 \<Rightarrow> m0 k)))))
   \<and> (f meta key = (None, None) \<longrightarrow>
        pubKeyCallbackWrapper L (Some f) meta key =
          (Some \<lparr>CriticalOptions = None,
                 Extensions = Some [permKeyType \<mapsto> key_Type key,
                                    permKeyData \<mapsto> key_Marshal key,
                                    permKeyFingerprint \<mapsto> FingerprintLegacyMD5 L key]\<rparr>, None))
   \<and> (f meta key = (perm, None) \<and> ParsePublicKey L (key_Marshal key) = Inr k' \<longrightarrow>
        session_PublicKey L (fst (pubKeyCallbackWrapper L (Some f) meta key)) = Some k')
   \<and> (f meta key = (perm, None) \<and>
       (\<forall>k. \<exists>k'. ParsePublicKey L (key_Marshal k) = Inr k' \<and> key_Marshal k' = key_Marshal k) \<longrightarrow>
        (\<exists>k'. session_PublicKey L (fst (pubKeyCallbackWrapper L (Some f) meta key)) = Some k' \<and>
              key_Marshal k' = key_Marshal key))"
proof -
  have err: "pubKeyCallbackWrapper L (Some f) meta key = (None, Some e)"
    if "f meta key = (perm, Some e)"
    using that by (rule wrapper_error)
  have ok: "\<exists>p m. pubKeyCallbackWrapper L (Some f) meta key = (Some p, None) \<and>
               Extensions p = Some m \<and>
               m permKeyType = Some (key_Type key) \<and>
               m permKeyData = Some (key_Marshal key) \<and>
               m permKeyFingerprint = Some (FingerprintLegacyMD5 L key) \<and>
               CriticalOptions p = (case perm of None \<Rightarrow> None | Some q \<Rightarrow> CriticalOptions q) \<and>
               (\<forall>k. k \<noteq> permKeyType \<and> k \<noteq> permKeyData \<and> k \<noteq> permKeyFingerprint \<longrightarrow>
                    m k = (case perm of
                             None \<Rightarrow> None
                           | Some q \<Rightarrow> (case Extensions q of None \<Rightarrow> None | Some m0 \<Rightarrow> m0 k)))"
    if "f meta key = (perm, None)"
    unfolding wrapper_success[where f=f and meta=meta and key=key and perm=perm and L=L, OF that]
    by (auto simp: perm_keys_distinct split: option.splits)
  have nil: "pubKeyCallbackWrapper L (Some f) meta key =
          (Some \<lparr>CriticalOptions = None,
                 Extensions = Some [permKeyType \<mapsto> key_Type key,
                                    permKeyData \<mapsto> key_Marshal key,
                                    permKeyFingerprint \<mapsto> FingerprintLegacyMD5 L key]\<rparr>, None)"
    if "f meta key = (None, None)"
    unfolding wrapper_success[where f=f and meta=meta and key=key and perm=None and L=L, OF that]
    by simp
  have pk: "session_PublicKey L (fst (pubKeyCallbackWrapper L (Some f) meta key)) = Some k'"
    if "f meta key = (perm, None)" "ParsePublicKey L (key_Marshal key) = Inr k'" for k'
    unfolding wrapper_success[where f=f and meta=meta and key=key and perm=perm and L=L, OF that(1)]
    using that(2) by (simp add: session_PublicKey_def perm_keys_distinct)
  have rt: "\<exists>k'. session_PublicKey L (fst (pubKeyCallbackWrapper L (Some f) meta key)) = Some k' \<and>
              key_Marshal k' = key_Marshal key"
    if "f meta key = (perm, None)"
      "\<forall>k. \<exists>k'. ParsePublicKey L (key_Marshal k) = Inr k' \<and> key_Marshal k' = key_Marshal k"
  proof -
    from that(2) obtain k' where "ParsePublicKey L (key_Marshal key) = Inr k'"
      and "key_Marshal k' = key_Marshal key" by blast
    with pk[OF that(1)] show ?thesis by blast
  qed
  from err ok nil pk rt show ?thesis by blast
qed

theorem pubkey_wrapper_witness:
  "accept_any ''alice'' (PublicKey ''ssh-ed25519'' ''AAAAC3'') = (None, None) \<and>
   (\<forall>k. \<exists>k'. ParsePublicKey toy_lib (key_Marshal k) = Inr k' \<and> key_Marshal k' = key_Marshal k) \<and>
   pubKeyCallbackWrapper toy_lib (Some accept_any) ''alice'' (PublicKey ''ssh-ed25519'' ''AAAAC3'') =
     (Some \<lparr>CriticalOptions = None,
            Extensions = Some [permKeyType \<mapsto> ''ssh-ed25519'', permKeyData \<mapsto> ''AAAAC3'',
                               permKeyFingerprint \<mapsto> ''md5 of AAAAC3'']\<rparr>, None) \<and>
   session_PublicKey toy_lib
     (fst (pubKeyCallbackWrapper toy_lib (Some accept_any) ''alice''
             (PublicKey ''ssh-ed25519'' ''AAAAC3'')))
     = Some (PublicKey ''ssh-ed25519'' ''AAAAC3'') \<and>
   reject_all ''alice'' (PublicKey ''ssh-rsa'' ''AAAAB3'')
     = (None, Some (Errorf ''error: unauthorized'')) \<and>
   pubKeyCallbackWrapper toy_lib (Some reject_all) ''alice'' (PublicKey ''ssh-rsa'' ''AAAAB3'')
     = (None, Some (Errorf ''error: unauthorized''))"
proof -
  let ?key = "PublicKey ''ssh-ed25519'' ''AAAAC3''"
  have u: "accept_any ''alice'' ?key = (None, None)" by (simp add: accept_any_def)
  have rt: "\<forall>k. \<exists>k'. ParsePublicKey toy_lib (key_Marshal k) = Inr k' \<and> key_Marshal k' = key_Marshal k"
    by (simp add: toy_lib_def)
  have p: "ParsePublicKey toy_lib (key_Marshal ?key) = Inr ?key" by (simp add: toy_lib_def)
  have d: "reject_all ''alice'' (PublicKey ''ssh-rsa'' ''AAAAB3'')
             = (None, Some (Errorf ''error: unauthorized''))"
    by (simp add: reject_all_def)
  note A = pubkey_wrapper [of accept_any "''alice''" ?key None "Errorf ''x''" toy_lib ?key]
  note B = pubkey_wrapper [of reject_all "''alice''" "PublicKey ''ssh-rsa'' ''AAAAB3''" None
      "Errorf ''error: unauthorized''" toy_lib ?key]
  from A u have a: "pubKeyCallbackWrapper toy_lib (Some accept_any) ''alice'' ?key =
          (Some \<lparr>CriticalOptions = None,
                 Extensions = Some [permKeyType \<mapsto> key_Type ?key,
                                    permKeyData \<mapsto> key_Marshal ?key,
                                    permKeyFingerprint \<mapsto> FingerprintLegacyMD5 toy_lib ?key]\<rparr>, None)"
    by blast
  from A u p have b: "session_PublicKey toy_lib
      (fst (pubKeyCallbackWrapper toy_lib (Some accept_any) ''alice'' ?key)) = Some ?key"
    by blast
  from B d have c: "pubKeyCallbackWrapper toy_lib (Some reject_all) ''alice'' (PublicKey ''ssh-rsa'' ''AAAAB3'')
      = (None, Some (Errorf ''error: unauthorized''))"
    by blast
  have fp: "FingerprintLegacyMD5 toy_lib ?key = ''md5 of AAAAC3''" by (simp add: toy_lib_def)
  from u rt a b c d fp show ?thesis by simp
qed


section \<open>The configuration after construction\<close>

lemma New_no_addr: "New toy_lib no_addr_config = (no_addr_config, Inr no_addr_server)"
  by (simp add: New_def no_addr_config_def no_addr_server_def limits_def password_only_def
      Second_def Let_def)

text \<open>
  Claim C9, as stated, fails on the code: \<open>ListenAndServe\<close> on a server built from a
  configuration with an empty \<open>Addr\<close> writes \<open>:22\<close> into that configuration.
\<close>

theorem listen_and_serve_writes_addr:
  "New toy_lib no_addr_config = (no_addr_config, Inr no_addr_server) \<and>
   Addr (config no_addr_server) = [] \<and>
   fst (ListenAndServe toy_net [SelCtxDone] no_addr_server) = Some None \<and>
   Addr (config (fst (snd (ListenAndServe toy_net [SelCtxDone] no_addr_server)))) = '':22'' \<and>
   config (fst (snd (ListenAndServe toy_net [SelCtxDone] no_addr_server))) \<noteq> config no_addr_server"
proof -
  have a: "Addr (config no_addr_server) = []"
    by (simp add: no_addr_server_def no_addr_config_def)
  have r: "fst (ListenAndServe toy_net [SelCtxDone] no_addr_server) = Some None"
    by (simp add: ListenAndServe_def listen_def iteration_head_def enabled_def init_listen_def
        toy_net_def no_addr_server_def no_addr_config_def limits_def Let_def)
  have b: "Addr (config (fst (snd (ListenAndServe toy_net [SelCtxDone] no_addr_server)))) = '':22''"
    by (simp add: ListenAndServe_def toy_net_def no_addr_server_def no_addr_config_def
        limits_def Let_def split: prod.split)
  from a b have "config (fst (snd (ListenAndServe toy_net [SelCtxDone] no_addr_server)))
                   \<noteq> config no_addr_server"
    by auto
  with New_no_addr a r b show ?thesis by blast
qed

text \<open>
  Claim C9, amended. \<open>ListenAndServe\<close> leaves every field of the configuration as it
  was, except \<open>Addr\<close>, which it sets to \<open>:22\<close> when it is empty; with a non-empty
  \<open>Addr\<close> the configuration after the call is the configuration before it. This holds
  however the call ends (an error from resolving or listening, a return after shutdown,
  or still serving) and whatever the accept loop meets.
\<close>

theorem listen_and_serve_config:
  "config (fst (snd (ListenAndServe N cs s))) =
     (config s)\<lparr>Addr := (if Addr (config s) = [] then '':22'' else Addr (config s))\<rparr>
   \<and> (Addr (config s) \<noteq> [] \<longrightarrow> config (fst (snd (ListenAndServe N cs s))) = config s)"
  by (simp add: ListenAndServe_def Let_def split: sum.split prod.split)

theorem listen_and_serve_config_witness:
  "Addr (config (no_addr_server\<lparr>config := limits 2 2\<rparr>)) \<noteq> [] \<and>
   config (fst (snd (ListenAndServe toy_net [AcceptOk (conn_from ''10.0.0.7'' 40001), SelCtxDone]
                       (no_addr_server\<lparr>config := limits 2 2\<rparr>)))) = limits 2 2 \<and>
   config (fst (snd (ListenAndServe toy_net [SelCtxDone] no_addr_server)))
     = no_addr_config\<lparr>Addr := '':22''\<rparr>"
proof -
  have n: "Addr (config (no_addr_server\<lparr>config := limits 2 2\<rparr>)) \<noteq> []"
    by (simp add: limits_def)
  from listen_and_serve_config [of toy_net
      "[AcceptOk (conn_from ''10.0.0.7'' 40001), SelCtxDone]"
      "no_addr_server\<lparr>config := limits 2 2\<rparr>"] n
  have a: "config (fst (snd (ListenAndServe toy_net
              [AcceptOk (conn_from ''10.0.0.7'' 40001), SelCtxDone]
              (no_addr_server\<lparr>config := limits 2 2\<rparr>)))) = limits 2 2"
    by simp
  from listen_and_serve_config [of toy_net "[SelCtxDone]" no_addr_server]
  have b: "config (fst (snd (ListenAndServe toy_net [SelCtxDone] no_addr_server)))
     = no_addr_config\<lparr>Addr := '':22''\<rparr>"
    by (simp add: no_addr_server_def no_addr_config_def)
  from n a b show ?thesis by blast
qed

end
